theory Spec2Isabelle
  imports Main "HOL-Library.Extended_Nat" "HOL-Library.Product_Lexorder"
begin

section \<open>The delivery worker of lib/sender.js\<close>

text \<open>
  A shallow embedding of the class \<open>Sender\<close>. One call of \<open>sendNext\<close> is modelled from the
  \<open>GET\<close> command to the last command it causes for the delivery it fetched. The sender
  object is a record passed from function to function; besides the fields of the class
  (\<open>closing\<close>, \<open>emptyChecks\<close>) it carries, as history, everything the worker has put on
  its four outgoing channels: the commands given to \<open>sendCommand\<close>, the calls on the SMTP
  connection, the traffic of the bounce webhook and the \<open>error\<close> events it emitted.
  Callbacks are written in direct style: a function returns what its callback would receive.
  The latency counters (\<open>updateTimer\<close>, \<open>getTimers\<close>), the log lines and the
  \<open>time: Date.now()\<close> fields take no part in control flow and are left out.
\<close>

subsection \<open>JavaScript strings\<close>

text \<open>
  Strings are lists of characters. \<open>String.prototype.toLowerCase\<close> follows Unicode and is
  a field of the environment below. \<open>lower_char\<close> lower-cases the ASCII letters only; it
  serves for the names of headers.
\<close>

definition lower_char :: "char \<Rightarrow> char" where
  "lower_char c =
     (let n = (of_char c :: nat) in if 65 \<le> n \<and> n \<le> 90 then char_of (n + 32) else c)"

text \<open>\<open>s.lastIndexOf(c)\<close>: the index of the last occurrence, \<open>-1\<close> when there is none.\<close>

fun lastIndexOf :: "string \<Rightarrow> char \<Rightarrow> int" where
  "lastIndexOf [] c = - 1"
| "lastIndexOf (x # xs) c =
     (let r = lastIndexOf xs c in if 0 \<le> r then r + 1 else if x = c then 0 else - 1)"

text \<open>
  \<open>s.substr(start, length)\<close>: a negative start counts from the end, an omitted length
  (\<open>None\<close>) runs to the end, and a length that is not positive gives the empty string.
\<close>

definition substr :: "string \<Rightarrow> int \<Rightarrow> int option \<Rightarrow> string" where
  "substr s start len =
     (let n = int (length s);
          b = (if start < 0 then max 0 (n + start) else start);
          r = drop (nat b) s
      in case len of None \<Rightarrow> r | Some l \<Rightarrow> take (nat l) r)"

text \<open>\<open>parts.join(sep)\<close>\<close>

fun join :: "string list \<Rightarrow> string \<Rightarrow> string" where
  "join [] sep = []"
| "join [x] sep = x"
| "join (x # y # ys) sep = x @ sep @ join (y # ys) sep"

subsection \<open>The header block\<close>

text \<open>
  Modelled from the spec: the class \<open>Headers\<close> belongs to the package mailsplit and is not
  part of the sources. The spec describes it as an ordered block of lines in which
  duplicate names are allowed and insertion is addressed by index, \<open>0\<close> being the top and
  \<open>\<infinity>\<close> the bottom. A line keeps its name in normalised (lower-case) form beside its text;
  the names the worker uses are ASCII.
  An index that is left out counts as \<open>0\<close>. \<open>add\<close> formats its line as \<open>name: value\<close>;
  the folding of long lines is left out.
\<close>

record header =
  key :: string
  line :: string

type_synonym headers = "header list"

definition normalizeHeader :: "string \<Rightarrow> string" where
  "normalizeHeader k = map lower_char k"

definition addFormatted :: "string \<Rightarrow> string \<Rightarrow> enat option \<Rightarrow> headers \<Rightarrow> headers" where
  "addFormatted k l index lines =
     (let i = (case index of None \<Rightarrow> 0 | Some j \<Rightarrow> j);
          h = \<lparr>key = normalizeHeader k, line = l\<rparr>
      in if i < 1 then h # lines
         else if enat (length lines) \<le> i then lines @ [h]
         else take (the_enat i) lines @ [h] @ drop (the_enat i) lines)"

definition add :: "string \<Rightarrow> string \<Rightarrow> enat option \<Rightarrow> headers \<Rightarrow> headers" where
  "add k v index lines = addFormatted k (k @ '': '' @ v) index lines"

definition get :: "string \<Rightarrow> headers \<Rightarrow> string list" where
  "get k lines = map line (filter (\<lambda>h. key h = normalizeHeader k) lines)"

definition getList :: "headers \<Rightarrow> headers" where
  "getList lines = lines"

subsection \<open>Deliveries, errors and queue commands\<close>

record spam_default =
  score :: "string option"
  required_score :: "string option"
  is_spam :: bool

record spam =
  default :: "spam_default option"
  tests :: "string list option"

record dkim =
  hashAlgo :: string
  bodyHash :: string
  keys :: "string list"

text \<open>
  \<open>deferred\<close> is \<open>delivery._deferred.count\<close>, \<open>None\<close> when \<open>_deferred\<close> or its count is
  absent. An absent envelope sender is the empty string, which JavaScript also counts as
  false.
\<close>

record delivery =
  id' :: string
  seq :: string
  lock :: string
  from' :: string
  to :: "string list"
  domain :: string
  headers :: headers
  bodySize :: nat
  deferred :: "nat option"
  spam :: "spam option"
  dkim :: "dkim option"
  fbl :: "string option"
  messageId :: string

record error =
  code :: string
  response :: "string option"
  message :: string

record bounce =
  action :: string
  category :: string
  bmessage :: string

text \<open>
  The commands of the queue channel with their fields in the order of the source:
  \<open>RELEASE id seq _lock\<close>, \<open>DEFER id seq _lock ttl\<close> and
  \<open>BOUNCE id from to seq headers returnPath category response\<close>.
\<close>

datatype command =
    GET
  | RELEASE string string string
  | DEFER string string string nat
  | BOUNCE string string "string list" string headers string string string

record webhook_body =
  w_id :: string
  w_to :: "string list"
  w_seq :: string
  w_returnPath :: string
  w_category :: string
  w_response :: string
  w_fbl :: "string option"

datatype hook_event = Post webhook_body | LogError string | SetTimeout nat

datatype fetch_result = StreamError error | StreamEnd

record send_args =
  s_from :: string
  s_to :: "string list"
  s_size :: nat

datatype smtp_event = Send send_args string | Close

subsection \<open>Zone, connection options and the collaborators of the worker\<close>

record zone =
  name :: string
  host :: "string option"
  port :: nat
  disableStarttls :: bool
  secure :: bool
  authMethod :: "string option"
  auth :: "string option"

record zone_address =
  za_name :: string
  za_address :: string

record options =
  o_servername :: string
  o_host :: string
  o_port :: nat
  o_localAddress :: string
  o_name :: string
  requireTLS :: bool
  ignoreTLS :: bool
  opportunisticTLS :: bool
  o_secure :: bool
  o_authMethod :: "string option"

record mx_record =
  exchange :: string
  priority :: nat

datatype get_result = GetError error | GetEmpty | GetJob delivery

datatype send_result = SendError error | SendOk string

record config =
  dkim_enabled :: bool
  srs_enabled :: bool
  srs_excludeDomains :: "string list"
  srs_rewriteDomain :: string
  bounces_url :: string
  bounces_enabled :: bool

text \<open>
  Everything the worker calls and does not define is a field of the environment: the
  queue authority behind \<open>sendCommand\<close>, the modules \<open>bounces\<close>, \<open>dkim-sign\<close> and
  \<open>iptools\<close>, the SRS rewriter, the zone's \<open>getAddress\<close> and \<open>generateReceivedHeader\<close>,
  the packages smtp-connection (\<open>connect\<close>, \<open>login\<close>, \<open>send\<close>), nodemailer-fetch
  (\<open>fetch\<close>, by the number of the attempt) and mailsplit's \<open>build\<close>, and \<open>os.hostname\<close>
  and \<open>net.isIPv6\<close>, and the string method \<open>toLowerCase\<close>. \<open>connect\<close> and \<open>login\<close>
  give the error the connection reports, or
  \<open>None\<close> when the step succeeds. \<open>formatSMTPResponse\<close> is a method of the class built
  from regular expressions; it only shapes the text of the \<open>response\<close> fields and is
  kept abstract here.
\<close>

record env =
  conf :: config
  queue_get :: get_result
  queue :: "command \<Rightarrow> error option"
  bounces_check :: "string option \<Rightarrow> bounce"
  dkim_sign :: "headers \<Rightarrow> string \<Rightarrow> string \<Rightarrow> string \<Rightarrow> string"
  srs_rewrite :: "string \<Rightarrow> string \<Rightarrow> string"
  generateReceivedHeader :: "zone \<Rightarrow> delivery \<Rightarrow> string \<Rightarrow> string"
  getAddress :: "zone \<Rightarrow> string \<Rightarrow> bool \<Rightarrow> zone_address"
  resolveMx :: "string \<Rightarrow> error + mx_record list option"
  resolveIp :: "string \<Rightarrow> zone \<Rightarrow> error + string list"
  connect :: "options \<Rightarrow> error option"
  login :: "options \<Rightarrow> string \<Rightarrow> error option"
  send :: "options \<Rightarrow> send_args \<Rightarrow> string \<Rightarrow> send_result"
  fetch :: "nat \<Rightarrow> fetch_result"
  build :: "headers \<Rightarrow> string"
  formatSMTPResponse :: "string \<Rightarrow> string"
  os_hostname :: string
  isIPv6 :: "string \<Rightarrow> bool"
  toLowerCase :: "string \<Rightarrow> string"

subsection \<open>The sender and its channels\<close>

record sender =
  closing :: bool
  emptyChecks :: nat
  sleeps :: "nat list"
  issued :: "command list"
  smtp :: "smtp_event list"
  hooks :: "hook_event list"
  emitted :: "error list"

definition sendCommand :: "env \<Rightarrow> command \<Rightarrow> sender \<Rightarrow> error option \<times> sender" where
  "sendCommand e cmd s = (queue e cmd, s\<lparr>issued := issued s @ [cmd]\<rparr>)"

definition emit :: "error \<Rightarrow> sender \<Rightarrow> sender" where
  "emit err s = s\<lparr>emitted := emitted s @ [err]\<rparr>"

definition releaseDelivery :: "env \<Rightarrow> delivery \<Rightarrow> sender \<Rightarrow> error option \<times> sender" where
  "releaseDelivery e d s = sendCommand e (RELEASE (id' d) (seq d) (lock d)) s"

definition deferDelivery :: "env \<Rightarrow> delivery \<Rightarrow> nat \<Rightarrow> sender \<Rightarrow> error option \<times> sender" where
  "deferDelivery e d ttl s = sendCommand e (DEFER (id' d) (seq d) (lock d) ttl) s"

subsection \<open>Bounce notification\<close>

text \<open>
  \<open>notifyBounce\<close> posts the body to the webhook. \<open>retries\<close> is the counter of the
  enclosing callback; the source tests \<open>retries++ <= 5\<close> and then waits
  \<open>Math.pow(retries, 2) * 1000\<close> milliseconds, with the counter already incremented.
\<close>

function notifyBounce :: "env \<Rightarrow> webhook_body \<Rightarrow> nat \<Rightarrow> sender \<Rightarrow> sender" where
  "notifyBounce e body retries s =
     (let s1 = s\<lparr>hooks := hooks s @ [Post body]\<rparr> in
      case fetch e retries of
        StreamEnd \<Rightarrow> s1
      | StreamError err \<Rightarrow>
          (let s2 = s1\<lparr>hooks := hooks s1 @
                      [LogError ''Could not send bounce info'', LogError (message err)]\<rparr>
           in if retries \<le> 5
              then notifyBounce e body (retries + 1)
                     (s2\<lparr>hooks := hooks s2 @ [SetTimeout ((retries + 1) ^ 2 * 1000)]\<rparr>)
              else s2))"
  by pat_completeness auto
termination
  by (relation "measure (\<lambda>(e, body, retries, s). 6 - retries)") auto

definition sendBounceMessage :: "env \<Rightarrow> delivery \<Rightarrow> bounce \<Rightarrow> string \<Rightarrow> sender \<Rightarrow> sender" where
  "sendBounceMessage e d b smtpResponse s =
     (if from' d = [] then s
      else if length (get ''Received'' (headers d)) > 25 then s
      else case sendCommand e
                  (BOUNCE (id' d) (from' d) (to d) (seq d) (getList (headers d))
                     (from' d) (category b) smtpResponse) s of
             (Some err, s1) \<Rightarrow> emit err (s1\<lparr>closing := True\<rparr>)
           | (None, s1) \<Rightarrow> s1)"

subsection \<open>Classification of a failure\<close>

definition deferredCount :: "delivery \<Rightarrow> nat" where
  "deferredCount d = (case deferred d of None \<Rightarrow> 0 | Some c \<Rightarrow> c)"

text \<open>
  \<open>handleResponseError(delivery, connection, err, callback)\<close>; the connection is not
  read by the source and the callback only updates a latency counter. The two calls
  deferred with \<open>setImmediate\<close> run in the order in which they were scheduled.
\<close>

definition handleResponseError :: "env \<Rightarrow> delivery \<Rightarrow> error \<Rightarrow> sender \<Rightarrow> sender" where
  "handleResponseError e d err s =
     (let smtpResponse = formatSMTPResponse e
            (case response err of None \<Rightarrow> message err
             | Some r \<Rightarrow> if r = [] then message err else r);
          bounce = bounces_check e (response err)
      in if action bounce \<noteq> ''reject'' \<or> deferredCount d > 6 then
           (let ttl = min (5 ^ (deferredCount d + 1)) 1024 * 60 * 1000 in
            case deferDelivery e d ttl s of
              (Some err', s1) \<Rightarrow> emit err' (s1\<lparr>closing := True\<rparr>)
            | (None, s1) \<Rightarrow> s1)
         else
           (case releaseDelivery e d s of
              (Some err', s1) \<Rightarrow> emit err' (s1\<lparr>closing := True\<rparr>)
            | (None, s1) \<Rightarrow>
                (let body = \<lparr>w_id = id' d, w_to = to d, w_seq = seq d,
                              w_returnPath = from' d, w_category = category bounce,
                              w_response = smtpResponse,
                              w_fbl = (case fbl d of None \<Rightarrow> None
                                       | Some f \<Rightarrow> if f = [] then None else Some f)\<rparr>;
                     s2 = (if bounces_url (conf e) \<noteq> [] then notifyBounce e body 0 s1 else s1)
                 in if bounces_enabled (conf e)
                    then sendBounceMessage e d bounce smtpResponse s2 else s2)))"

subsection \<open>Finding a connection\<close>

text \<open>
  \<open>getConnection\<close> walks the exchanges (\<open>tryConnectMX\<close>, counter \<open>mxTry\<close>) and the
  addresses of each exchange (\<open>tryConnectIP\<close>, counter \<open>ipTry\<close>, starting at \<open>-1\<close>).
  Nothing in the source bounds the number of connections it opens, so the two functions
  take fuel, one unit for every call, and give \<open>None\<close> when it runs out. Every
  \<open>new SMTPConnection(options)\<close> is recorded with the values of the two counters and of
  \<open>retryConnection\<close> at that moment. An established connection is represented by its
  options. The zone is returned because \<open>disableStarttls\<close> may have been set.
\<close>

record attempt =
  a_mx :: nat
  a_ip :: int
  a_retry :: bool
  a_options :: options

record gc_result =
  gc_outcome :: "error + options"
  gc_zone :: zone
  gc_attempts :: "attempt list"

fun tryConnectMX ::
  "nat \<Rightarrow> env \<Rightarrow> delivery \<Rightarrow> mx_record list \<Rightarrow> zone \<Rightarrow> nat \<Rightarrow> attempt list
     \<Rightarrow> gc_result option"
and tryConnectIP ::
  "nat \<Rightarrow> env \<Rightarrow> delivery \<Rightarrow> mx_record list \<Rightarrow> zone \<Rightarrow> nat \<Rightarrow> mx_record
     \<Rightarrow> string list \<Rightarrow> int \<Rightarrow> bool \<Rightarrow> attempt list \<Rightarrow> gc_result option"
where
  "tryConnectMX 0 e d exchanges z mxTry tried = None"
| "tryConnectMX (Suc n) e d exchanges z mxTry tried =
     (if length exchanges \<le> mxTry then
        Some \<lparr>gc_outcome = Inl \<lparr>code = [],
                 response = Some (''450 Can't connect to any MX server for '' @ domain d),
                 message = ''Can't connect to MX''\<rparr>,
              gc_zone = z, gc_attempts = tried\<rparr>
      else
        (let mx = exchanges ! mxTry; mxTry' = mxTry + 1 in
         case resolveIp e (exchange mx) z of
           Inl err \<Rightarrow> tryConnectMX n e d exchanges z mxTry' tried
         | Inr ipList \<Rightarrow>
             if ipList = [] then tryConnectMX n e d exchanges z mxTry' tried
             else tryConnectIP n e d exchanges z mxTry' mx ipList (- 1) False tried))"
| "tryConnectIP 0 e d exchanges z mxTry mx ipList ipTry retryConnection tried = None"
| "tryConnectIP (Suc n) e d exchanges z mxTry mx ipList ipTry retryConnection tried =
     (if \<not> retryConnection \<and> int (length ipList) - 1 \<le> ipTry then
        tryConnectMX n e d exchanges z mxTry tried
      else
        (let ipTry' = (if retryConnection then ipTry else ipTry + 1);
             ip = ipList ! nat ipTry';
             zoneAddress = getAddress e z (id' d @ ''.'' @ seq d) (isIPv6 e ip);
             options = \<lparr>o_servername = exchange mx, o_host = ip,
                        o_port = port z, o_localAddress = za_address zoneAddress,
                        o_name = za_name zoneAddress,
                        requireTLS = (\<not> disableStarttls z), ignoreTLS = disableStarttls z,
                        opportunisticTLS = True, o_secure = secure z,
                        o_authMethod = authMethod z\<rparr>;
             tried' = tried @ [\<lparr>a_mx = mxTry, a_ip = ipTry', a_retry = retryConnection,
                             a_options = options\<rparr>]
         in case connect e options of
              Some err \<Rightarrow>
                if code err = ''ETLS'' then
                  tryConnectIP n e d exchanges (z\<lparr>disableStarttls := True\<rparr>) mxTry mx
                    ipList ipTry' True tried'
                else tryConnectIP n e d exchanges z mxTry mx ipList ipTry' False tried'
            | None \<Rightarrow>
                (case (case auth z of None \<Rightarrow> None | Some a \<Rightarrow> login e options a) of
                   Some err \<Rightarrow> Some \<lparr>gc_outcome = Inl err, gc_zone = z, gc_attempts = tried'\<rparr>
                 | None \<Rightarrow>
                     Some \<lparr>gc_outcome = Inr options, gc_zone = z, gc_attempts = tried'\<rparr>)))"

definition getConnection :: "nat \<Rightarrow> env \<Rightarrow> zone \<Rightarrow> delivery \<Rightarrow> gc_result option" where
  "getConnection n e z d =
     (case (case host z of
              None \<Rightarrow> resolveMx e (domain d)
            | Some h \<Rightarrow> if h = [] then resolveMx e (domain d)
                        else Inr (Some [\<lparr>exchange = h, priority = 0\<rparr>])) of
        Inl err \<Rightarrow> Some \<lparr>gc_outcome = Inl err, gc_zone = z, gc_attempts = []\<rparr>
      | Inr None \<Rightarrow>
          Some \<lparr>gc_outcome = Inl \<lparr>code = [],
                   response = Some (''450 Can't find an MX server for '' @ domain d),
                   message = ''Can't find an MX server for '' @ domain d\<rparr>,
                gc_zone = z, gc_attempts = []\<rparr>
      | Inr (Some exchanges) \<Rightarrow> tryConnectMX n e d exchanges z 0 [])"

subsection \<open>One delivery\<close>

definition addSpamHeader :: "delivery \<Rightarrow> delivery" where
  "addSpamHeader d =
     (case spam d of
        None \<Rightarrow> d
      | Some sp \<Rightarrow>
          (case default sp of
             None \<Rightarrow> d
           | Some df \<Rightarrow>
               (let statusParts =
                      (case score df of None \<Rightarrow> [] | Some v \<Rightarrow> [''score='' @ v]) @
                      (case required_score df of None \<Rightarrow> [] | Some v \<Rightarrow> [''required='' @ v]) @
                      (case tests sp of None \<Rightarrow> []
                       | Some ts \<Rightarrow> if ts = [] then [] else [''tests=['' @ join ts '', '' @ '']''])
                in d\<lparr>headers := add ''X-Zone-Spam-Status''
                       ((if is_spam df then ''Yes'' else ''No'') @
                        (if statusParts = [] then [] else '', '' @ join statusParts '', ''))
                       (Some \<infinity>) (headers d)\<rparr>)))"

definition signMessage :: "env \<Rightarrow> delivery \<Rightarrow> delivery" where
  "signMessage e d =
     (case dkim d of
        None \<Rightarrow> d
      | Some dk \<Rightarrow>
          fold (\<lambda>k d'.
                 (let dkimHeader = dkim_sign e (headers d') (hashAlgo dk) (bodyHash dk) k
                  in if dkimHeader = [] then d'
                     else d'\<lparr>headers := addFormatted ''dkim-signature'' dkimHeader None
                                           (headers d')\<rparr>))
            (rev (keys dk)) d)"

definition withReceived :: "env \<Rightarrow> zone \<Rightarrow> delivery \<Rightarrow> string \<Rightarrow> delivery" where
  "withReceived e z d hostname =
     (let recivedHeader = generateReceivedHeader e z d hostname
      in d\<lparr>headers := addFormatted ''Received'' recivedHeader (Some 0) (headers d)\<rparr>)"

definition srsFrom :: "env \<Rightarrow> delivery \<Rightarrow> string" where
  "srsFrom e d =
     (let envelopeFrom = from' d in
      if srs_enabled (conf e) \<and> envelopeFrom \<noteq> [] then
        (let senderDomain = toLowerCase e
               (substr envelopeFrom (lastIndexOf envelopeFrom CHR ''@'' + 1) None)
         in if senderDomain \<notin> set (srs_excludeDomains (conf e)) then
              srs_rewrite e
                (substr envelopeFrom 0 (Some (lastIndexOf envelopeFrom CHR ''@''))) senderDomain
              @ ''@'' @ srs_rewriteDomain (conf e)
            else envelopeFrom)
      else envelopeFrom)"

text \<open>The callback that \<open>sendNext\<close> gives to \<open>getConnection\<close>.\<close>

definition deliver :: "env \<Rightarrow> zone \<Rightarrow> delivery \<Rightarrow> error + options \<Rightarrow> sender \<Rightarrow> sender" where
  "deliver e z d res s =
     (case res of
        Inl err \<Rightarrow> handleResponseError e (withReceived e z d (os_hostname e)) err s
      | Inr connection \<Rightarrow>
          (let recivedHeader = generateReceivedHeader e z d (o_name connection);
               d1 = withReceived e z d (o_name connection);
               d2 = (if dkim_enabled (conf e) then signMessage e d1 else d1);
               messageHeaders = build e (headers d2);
               messageSize = length recivedHeader + length messageHeaders + bodySize d2;
               args = \<lparr>s_from = srsFrom e d2, s_to = to d2, s_size = messageSize\<rparr>;
               s1 = s\<lparr>smtp := smtp s @ [Send args messageHeaders, Close]\<rparr>
           in case send e connection args messageHeaders of
                SendError err \<Rightarrow> handleResponseError e d2 err s1
              | SendOk info \<Rightarrow>
                  (case releaseDelivery e d2 s1 of
                     (Some err, s2) \<Rightarrow> emit err (s2\<lparr>closing := True\<rparr>)
                   | (None, s2) \<Rightarrow> s2)))"

text \<open>
  One iteration of \<open>sendNext\<close>. The throttle (\<open>zone.speedometer\<close>) only delays its
  callback. An empty answer puts the worker to sleep for
  \<open>min(emptyChecks\<^sup>2, 1000) * 10\<close> milliseconds.
\<close>

definition sendNext :: "nat \<Rightarrow> env \<Rightarrow> zone \<Rightarrow> sender \<Rightarrow> (zone \<times> sender) option" where
  "sendNext n e z s =
     (if closing s then Some (z, s)
      else
        (let s0 = s\<lparr>issued := issued s @ [GET]\<rparr>;
             empty = (let k = emptyChecks s0 + 1
                      in Some (z, s0\<lparr>emptyChecks := k,
                                     sleeps := sleeps s0 @ [min (k ^ 2) 1000 * 10]\<rparr>))
         in case queue_get e of
              GetError err \<Rightarrow> Some (z, emit err (s0\<lparr>closing := True\<rparr>))
            | GetEmpty \<Rightarrow> empty
            | GetJob delivery \<Rightarrow>
                if id' delivery = [] then empty
                else
                  (let d = addSpamHeader delivery in
                   case getConnection n e z d of
                     None \<Rightarrow> None
                   | Some r \<Rightarrow>
                       Some (gc_zone r,
                             deliver e (gc_zone r) d (gc_outcome r) (s0\<lparr>emptyChecks := 0\<rparr>)))))"

subsection \<open>Notions used in the statements\<close>

text \<open>The commands a call has added to the queue channel.\<close>

definition new_commands :: "sender \<Rightarrow> sender \<Rightarrow> command list" where
  "new_commands s s' = drop (length (issued s)) (issued s')"

fun isBOUNCE :: "command \<Rightarrow> bool" where
  "isBOUNCE (BOUNCE i f t q h r c m) = True"
| "isBOUNCE _ = False"

fun isTerminal :: "command \<Rightarrow> bool" where
  "isTerminal GET = False"
| "isTerminal _ = True"

fun timeouts :: "hook_event list \<Rightarrow> nat list" where
  "timeouts [] = []"
| "timeouts (SetTimeout t # es) = t # timeouts es"
| "timeouts (_ # es) = timeouts es"

fun posts :: "hook_event list \<Rightarrow> webhook_body list" where
  "posts [] = []"
| "posts (Post b # es) = b # posts es"
| "posts (_ # es) = posts es"

text \<open>
  The test \<open>err.code === 'ETLS'\<close> of the error handler, as a property of the options a
  connection was opened with.
\<close>

definition tlsFailure :: "env \<Rightarrow> options \<Rightarrow> bool" where
  "tlsFailure e opts = (case connect e opts of None \<Rightarrow> False | Some err \<Rightarrow> code err = ''ETLS'')"

text \<open>The record \<open>tryConnectIP\<close> keeps of the connection it opens.\<close>

definition attemptAt ::
  "env \<Rightarrow> delivery \<Rightarrow> zone \<Rightarrow> nat \<Rightarrow> mx_record \<Rightarrow> string list \<Rightarrow> int \<Rightarrow> bool \<Rightarrow> attempt" where
  "attemptAt e d z mxTry mx ipList ipTry retryConnection =
     (let ip = ipList ! nat ipTry;
          zoneAddress = getAddress e z (id' d @ ''.'' @ seq d) (isIPv6 e ip)
      in \<lparr>a_mx = mxTry, a_ip = ipTry, a_retry = retryConnection,
          a_options = \<lparr>o_servername = exchange mx, o_host = ip,
                        o_port = port z, o_localAddress = za_address zoneAddress,
                        o_name = za_name zoneAddress,
                        requireTLS = (\<not> disableStarttls z), ignoreTLS = disableStarttls z,
                        opportunisticTLS = True, o_secure = secure z,
                        o_authMethod = authMethod z\<rparr>\<rparr>)"

text \<open>
  \<open>retryOf a b\<close>: connection \<open>b\<close> is the plaintext retry of connection \<open>a\<close>: it was opened
  with \<open>retryConnection\<close> set, under the same values of \<open>mxTry\<close> and \<open>ipTry\<close>, to the same
  exchange and address, and without STARTTLS.
\<close>

definition retryOf :: "attempt \<Rightarrow> attempt \<Rightarrow> bool" where
  "retryOf a b =
     (a_retry b \<and> a_mx b = a_mx a \<and> a_ip b = a_ip a
      \<and> o_host (a_options b) = o_host (a_options a)
      \<and> o_servername (a_options b) = o_servername (a_options a)
      \<and> ignoreTLS (a_options b) \<and> \<not> requireTLS (a_options b))"

text \<open>
  How a connection follows the one before it: after a STARTTLS failure comes its retry,
  after any other failure a first connection under later counters.
\<close>

definition follows :: "env \<Rightarrow> attempt \<Rightarrow> attempt \<Rightarrow> bool" where
  "follows e a b =
     (if tlsFailure e (a_options a) then retryOf a b
      else \<not> a_retry b \<and> (a_mx a, a_ip a) < (a_mx b, a_ip b))"

definition traceOk :: "env \<Rightarrow> zone \<Rightarrow> attempt list \<Rightarrow> bool" where
  "traceOk e z t =
     (successively (follows e) t
      \<and> (\<forall>a \<in> set t. tlsFailure e (a_options a) \<longrightarrow> disableStarttls z)
      \<and> (\<forall>a \<in> set t. a_retry a \<longrightarrow> ignoreTLS (a_options a)))"

text \<open>What holds of the connections opened so far when the two functions are entered.\<close>

definition atMX :: "env \<Rightarrow> attempt list \<Rightarrow> nat \<Rightarrow> bool" where
  "atMX e t m = (t \<noteq> [] \<longrightarrow> \<not> tlsFailure e (a_options (last t)) \<and> a_mx (last t) \<le> m)"

definition atIP ::
  "env \<Rightarrow> zone \<Rightarrow> attempt list \<Rightarrow> nat \<Rightarrow> mx_record \<Rightarrow> string list \<Rightarrow> int \<Rightarrow> bool \<Rightarrow> bool" where
  "atIP e z t m mx ips i rt =
     (if rt then t \<noteq> [] \<and> tlsFailure e (a_options (last t)) \<and> a_mx (last t) = m
                \<and> a_ip (last t) = i \<and> o_host (a_options (last t)) = ips ! nat i
                \<and> o_servername (a_options (last t)) = exchange mx \<and> disableStarttls z
      else t \<noteq> [] \<longrightarrow> \<not> tlsFailure e (a_options (last t))
                \<and> (a_mx (last t), a_ip (last t)) \<le> (m, i))"

definition settled :: "env \<Rightarrow> gc_result \<Rightarrow> bool" where
  "settled e r =
     (traceOk e (gc_zone r) (gc_attempts r)
      \<and> (gc_attempts r \<noteq> [] \<longrightarrow> \<not> tlsFailure e (a_options (last (gc_attempts r)))))"

text \<open>The delivery as \<open>deliver\<close> sends it: \<open>d2\<close> of its second branch.\<close>

definition prepared :: "env \<Rightarrow> zone \<Rightarrow> delivery \<Rightarrow> options \<Rightarrow> delivery" where
  "prepared e z d c =
     (let d1 = withReceived e z d (o_name c)
      in if dkim_enabled (conf e) then signMessage e d1 else d1)"

subsection \<open>A worked configuration\<close>


definition ex_delivery :: "headers \<Rightarrow> delivery" where
  "ex_delivery hs = \<lparr>id' = ''m1'', seq = ''1'', lock = ''L1'', from' = ''a@X.example'',
     to = [''b@y.test''], domain = ''y.test'',
     headers = \<lparr>key = ''from'', line = ''From: a@X.example''\<rparr> # hs,
     bodySize = 10, deferred = None, spam = None,
     dkim = Some \<lparr>hashAlgo = ''sha256'', bodyHash = ''abc'', keys = [''k1'']\<rparr>,
     fbl = None, messageId = ''m1@x''\<rparr>"

definition ex_sender :: sender where
  "ex_sender = \<lparr>closing = False, emptyChecks = 0, sleeps = [], issued = [], smtp = [],
     hooks = [], emitted = []\<rparr>"

definition ex_zone :: zone where
  "ex_zone = \<lparr>name = ''default'', host = None, port = 25, disableStarttls = False,
     secure = False, authMethod = None, auth = None\<rparr>"

definition ex_classify :: "string option \<Rightarrow> bounce" where
  "ex_classify r = (case r of
      None \<Rightarrow> \<lparr>action = ''defer'', category = ''other'', bmessage = ''Unknown''\<rparr>
    | Some t \<Rightarrow> if take 1 t = ''5''
        then \<lparr>action = ''reject'', category = ''recipient'', bmessage = ''Rejected''\<rparr>
        else \<lparr>action = ''defer'', category = ''other'', bmessage = ''Deferred''\<rparr>)"

definition ex_config :: config where
  "ex_config = \<lparr>dkim_enabled = True, srs_enabled = True,
     srs_excludeDomains = [''local.test''], srs_rewriteDomain = ''srs.test'',
     bounces_url = ''http://hook.test/'', bounces_enabled = True\<rparr>"

definition ex_error :: "string \<Rightarrow> string \<Rightarrow> error" where
  "ex_error c r = \<lparr>code = c, response = Some r, message = ''failed''\<rparr>"

definition ex_options :: options where
  "ex_options = \<lparr>o_servername = ''mx.y.test'', o_host = ''10.0.0.1'', o_port = 25,
     o_localAddress = ''192.0.2.1'', o_name = ''out.test'', requireTLS = False,
     ignoreTLS = True, opportunisticTLS = True, o_secure = False, o_authMethod = None\<rparr>"

definition ex_env :: "get_result \<Rightarrow> send_result \<Rightarrow> env" where
  "ex_env job sent = \<lparr>conf = ex_config, queue_get = job, queue = (\<lambda>c. None),
     bounces_check = ex_classify,
     dkim_sign = (\<lambda>h a b k. ''DKIM-Signature: '' @ k),
     srs_rewrite = (\<lambda>l d. ''SRS0='' @ d @ ''='' @ l),
     generateReceivedHeader = (\<lambda>z d h. ''Received: from '' @ h),
     getAddress = (\<lambda>z n v6. \<lparr>za_name = ''out.test'', za_address = ''192.0.2.1''\<rparr>),
     resolveMx = (\<lambda>d. Inr (Some [\<lparr>exchange = ''mx.y.test'', priority = 10\<rparr>])),
     resolveIp = (\<lambda>h z. Inr [''10.0.0.1'']),
     connect = (\<lambda>opts. if ignoreTLS opts then None else Some (ex_error ''ETLS'' ''454 TLS'')),
     login = (\<lambda>opts a. None),
     send = (\<lambda>opts a h. sent),
     fetch = (\<lambda>n. StreamError (ex_error [] ''500'')),
     build = (\<lambda>h. concat (map (\<lambda>l. line l @ [CHR 0x0D, CHR 0x0A]) h)),
     formatSMTPResponse = (\<lambda>r. r),
     os_hostname = ''host.test'',
     isIPv6 = (\<lambda>ip. False),
     toLowerCase = map lower_char\<rparr>"

section \<open>Properties\<close>

declare notifyBounce.simps [simp del]
declare tryConnectMX.simps [simp del] tryConnectIP.simps [simp del]

lemma notifyBounce_issued [simp]: "issued (notifyBounce e body r s) = issued s"
  by (induction e body r s rule: notifyBounce.induct)
     (subst notifyBounce.simps, simp split: fetch_result.splits add: Let_def)

lemma notifyBounce_closing [simp]: "closing (notifyBounce e body r s) = closing s"
  by (induction e body r s rule: notifyBounce.induct)
     (subst notifyBounce.simps, simp split: fetch_result.splits add: Let_def)

lemma notifyBounce_emitted [simp]: "emitted (notifyBounce e body r s) = emitted s"
  by (induction e body r s rule: notifyBounce.induct)
     (subst notifyBounce.simps, simp split: fetch_result.splits add: Let_def)

lemma notifyBounce_smtp [simp]: "smtp (notifyBounce e body r s) = smtp s"
  by (induction e body r s rule: notifyBounce.induct)
     (subst notifyBounce.simps, simp split: fetch_result.splits add: Let_def)

lemma sendBounceMessage_issued:
  "issued (sendBounceMessage e d b r s) =
     issued s @ (if from' d = [] \<or> 25 < length (get ''Received'' (headers d)) then []
                 else [BOUNCE (id' d) (from' d) (to d) (seq d) (getList (headers d)) (from' d) (category b) r])"
  by (simp add: sendBounceMessage_def sendCommand_def emit_def split: option.splits)

lemma handleResponseError_issued:
  "issued (handleResponseError e d err s) =
     issued s @
     (if action (bounces_check e (response err)) \<noteq> ''reject'' \<or> 6 < deferredCount d
      then [DEFER (id' d) (seq d) (lock d) (min (5 ^ (deferredCount d + 1)) 1024 * 60 * 1000)]
      else RELEASE (id' d) (seq d) (lock d) #
           (if queue e (RELEASE (id' d) (seq d) (lock d)) = None \<and> bounces_enabled (conf e)
               \<and> from' d \<noteq> [] \<and> \<not> 25 < length (get ''Received'' (headers d))
            then [BOUNCE (id' d) (from' d) (to d) (seq d) (getList (headers d)) (from' d)
                    (category (bounces_check e (response err)))
                    (formatSMTPResponse e (case response err of None \<Rightarrow> message err
                       | Some r \<Rightarrow> if r = [] then message err else r))]
            else []))"
  by (simp add: handleResponseError_def Let_def deferDelivery_def releaseDelivery_def
        sendCommand_def emit_def sendBounceMessage_issued split: option.splits)

lemma normalizeHeader_Received [simp]: "normalizeHeader ''Received'' = ''received''"
  by code_simp
lemma normalizeHeader_dkim [simp]: "normalizeHeader ''dkim-signature'' = ''dkim-signature''"
  by code_simp
lemma normalizeHeader_spam [simp]: "normalizeHeader ''X-Zone-Spam-Status'' = ''x-zone-spam-status''"
  by code_simp

lemma sign_fold_headers:
  "\<exists>sigs. fold (\<lambda>k d'.
                 (let dkimHeader = dkim_sign e (headers d') a b k
                  in if dkimHeader = [] then d'
                     else d'\<lparr>headers := addFormatted ''dkim-signature'' dkimHeader None
                                           (headers d')\<rparr>)) ks d
          = d\<lparr>headers := sigs @ headers d\<rparr>
        \<and> (\<forall>h \<in> set sigs. key h = ''dkim-signature'') \<and> length sigs \<le> length ks"
proof (induction ks arbitrary: d)
  case Nil
  show ?case by simp
next
  case (Cons k ks)
  let ?l = "dkim_sign e (headers d) a b k"
  show ?case
  proof (cases "?l = []")
    case True
    with Cons.IH [of d] show ?thesis by (auto simp: Let_def)
  next
    case False
    let ?d1 = "d\<lparr>headers := addFormatted ''dkim-signature'' ?l None (headers d)\<rparr>"
    from Cons.IH [of ?d1] obtain sigs where
      s: "fold (\<lambda>k d'.
                 (let dkimHeader = dkim_sign e (headers d') a b k
                  in if dkimHeader = [] then d'
                     else d'\<lparr>headers := addFormatted ''dkim-signature'' dkimHeader None
                                           (headers d')\<rparr>)) ks ?d1
          = ?d1\<lparr>headers := sigs @ headers ?d1\<rparr>"
      and k: "\<forall>h \<in> set sigs. key h = ''dkim-signature''" and l: "length sigs \<le> length ks"
      by blast
    have h1: "headers ?d1 = \<lparr>key = ''dkim-signature'', line = ?l\<rparr> # headers d"
      by (simp add: addFormatted_def normalizeHeader_dkim)
    show ?thesis
      apply (rule exI [of _ "sigs @ [\<lparr>key = ''dkim-signature'', line = ?l\<rparr>]"])
      using False s k l h1 by (simp add: Let_def)
  qed
qed

lemma signMessage_headers:
  "\<exists>sigs. signMessage e d = d\<lparr>headers := sigs @ headers d\<rparr>
        \<and> (\<forall>h \<in> set sigs. key h = ''dkim-signature'')
        \<and> length sigs \<le> (case dkim d of None \<Rightarrow> 0 | Some dk \<Rightarrow> length (keys dk))"
proof (cases "dkim d")
  case None
  then show ?thesis by (simp add: signMessage_def)
next
  case (Some dk)
  from sign_fold_headers [of e "hashAlgo dk" "bodyHash dk" "rev (keys dk)" d]
  show ?thesis using Some by (simp add: signMessage_def)
qed

lemma withReceived_eq:
  "withReceived e z d h =
     d\<lparr>headers := \<lparr>key = ''received'', line = generateReceivedHeader e z d h\<rparr> # headers d\<rparr>"
  by (simp add: withReceived_def addFormatted_def normalizeHeader_Received Let_def)

lemma addSpamHeader_headers:
  "\<exists>sp. addSpamHeader d = d\<lparr>headers := headers d @ sp\<rparr>
       \<and> (\<forall>h \<in> set sp. key h = ''x-zone-spam-status'')
       \<and> (sp = [] \<longleftrightarrow> (case spam d of None \<Rightarrow> True | Some s \<Rightarrow> default s = None))"
  by (auto simp: addSpamHeader_def add_def addFormatted_def normalizeHeader_spam Let_def split: option.splits)

lemma attemptAt_simps [simp]:
  "a_mx (attemptAt e d z m mx ips i rt) = m"
  "a_ip (attemptAt e d z m mx ips i rt) = i"
  "a_retry (attemptAt e d z m mx ips i rt) = rt"
  "ignoreTLS (a_options (attemptAt e d z m mx ips i rt)) = disableStarttls z"
  "requireTLS (a_options (attemptAt e d z m mx ips i rt)) = (\<not> disableStarttls z)"
  "o_host (a_options (attemptAt e d z m mx ips i rt)) = ips ! nat i"
  "o_servername (a_options (attemptAt e d z m mx ips i rt)) = exchange mx"
  by (simp_all add: attemptAt_def Let_def)

lemma tryConnectIP_exit:
  "\<not> rt \<Longrightarrow> int (length ips) - 1 \<le> i \<Longrightarrow>
     tryConnectIP (Suc n) e d xs z m mx ips i rt t = tryConnectMX n e d xs z m t"
  by (simp add: tryConnectIP.simps)

lemma tryConnectIP_tls:
  assumes "rt \<or> i < int (length ips) - 1"
      and "a = attemptAt e d z m mx ips (if rt then i else i + 1) rt"
      and "connect e (a_options a) = Some err" and "code err = ''ETLS''"
    shows "tryConnectIP (Suc n) e d xs z m mx ips i rt t =
             tryConnectIP n e d xs (z\<lparr>disableStarttls := True\<rparr>) m mx ips
               (if rt then i else i + 1) True (t @ [a])"
  using assms by (cases rt) (auto simp add: tryConnectIP.simps attemptAt_def Let_def)

lemma tryConnectIP_next:
  assumes "rt \<or> i < int (length ips) - 1"
      and "a = attemptAt e d z m mx ips (if rt then i else i + 1) rt"
      and "connect e (a_options a) = Some err" and "code err \<noteq> ''ETLS''"
    shows "tryConnectIP (Suc n) e d xs z m mx ips i rt t =
             tryConnectIP n e d xs z m mx ips (if rt then i else i + 1) False (t @ [a])"
  using assms by (cases rt) (auto simp add: tryConnectIP.simps attemptAt_def Let_def)

lemma tryConnectIP_connected:
  assumes "rt \<or> i < int (length ips) - 1"
      and "a = attemptAt e d z m mx ips (if rt then i else i + 1) rt"
      and "connect e (a_options a) = None"
    shows "tryConnectIP (Suc n) e d xs z m mx ips i rt t =
             Some \<lparr>gc_outcome =
                     (case (case auth z of None \<Rightarrow> None | Some u \<Rightarrow> login e (a_options a) u) of
                        Some err \<Rightarrow> Inl err | None \<Rightarrow> Inr (a_options a)),
                   gc_zone = z, gc_attempts = t @ [a]\<rparr>"
  using assms
  by (cases rt) (auto simp add: tryConnectIP.simps attemptAt_def Let_def split: option.splits)

lemma tryConnectMX_Suc:
  "tryConnectMX (Suc n) e d xs z m t =
     (if length xs \<le> m then
        Some \<lparr>gc_outcome = Inl \<lparr>code = [],
                 response = Some (''450 Can't connect to any MX server for '' @ domain d),
                 message = ''Can't connect to MX''\<rparr>,
              gc_zone = z, gc_attempts = t\<rparr>
      else
        (case resolveIp e (exchange (xs ! m)) z of
           Inl err \<Rightarrow> tryConnectMX n e d xs z (Suc m) t
         | Inr ipList \<Rightarrow>
             if ipList = [] then tryConnectMX n e d xs z (Suc m) t
             else tryConnectIP n e d xs z (Suc m) (xs ! m) ipList (- 1) False t))"
  by (simp add: tryConnectMX.simps Let_def)

lemma ip_terminates:
  assumes H: "\<forall>opts. ignoreTLS opts \<longrightarrow> \<not> tlsFailure e opts"
      and MX: "\<And>z t. \<exists>n. tryConnectMX n e d xs z m t \<noteq> None"
      and "rt \<longrightarrow> disableStarttls z"
    shows "\<exists>n. tryConnectIP n e d xs z m mx ips i rt t \<noteq> None"
  using assms(3)
proof (induction "2 * nat (int (length ips) - 1 - i) + (if rt then 1 else 0)"
        arbitrary: i rt z t rule: less_induct)
  case less
  show ?case
  proof (cases "\<not> rt \<and> int (length ips) - 1 \<le> i")
    case True
    from MX [of z t] obtain n where "tryConnectMX n e d xs z m t \<noteq> None" by blast
    with True have "tryConnectIP (Suc n) e d xs z m mx ips i rt t \<noteq> None"
      by (simp add: tryConnectIP_exit)
    then show ?thesis by blast
  next
    case False
    then have go: "rt \<or> i < int (length ips) - 1" by auto
    define i' where "i' = (if rt then i else i + 1)"
    define a where "a = attemptAt e d z m mx ips i' rt"
    have a: "a = attemptAt e d z m mx ips (if rt then i else i + 1) rt"
      by (simp add: a_def i'_def)
    show ?thesis
    proof (cases "connect e (a_options a)")
      case None
      from tryConnectIP_connected [OF go a None, of 0 xs t]
      have "tryConnectIP (Suc 0) e d xs z m mx ips i rt t \<noteq> None" by simp
      then show ?thesis by blast
    next
      case (Some err)
      show ?thesis
      proof (cases "code err = ''ETLS''")
        case True
        have nrt: "\<not> rt"
        proof
          assume rt
          with less.prems have "ignoreTLS (a_options a)" by (simp add: a_def)
          with H have "\<not> tlsFailure e (a_options a)" by blast
          with Some True show False by (simp add: tlsFailure_def)
        qed
        with go have lt: "i < int (length ips) - 1" by simp
        have "\<exists>n. tryConnectIP n e d xs (z\<lparr>disableStarttls := True\<rparr>) m mx ips i' True (t @ [a]) \<noteq> None"
          by (rule less.hyps) (use nrt lt in \<open>simp_all add: i'_def\<close>)
        then obtain n where
          "tryConnectIP n e d xs (z\<lparr>disableStarttls := True\<rparr>) m mx ips i' True (t @ [a]) \<noteq> None"
          by blast
        with tryConnectIP_tls [OF go a Some True, of n xs t]
        have "tryConnectIP (Suc n) e d xs z m mx ips i rt t \<noteq> None"
          by (simp add: i'_def)
        then show ?thesis by blast
      next
        case nE: False
        have "\<exists>n. tryConnectIP n e d xs z m mx ips i' False (t @ [a]) \<noteq> None"
          by (rule less.hyps) (use go in \<open>auto simp add: i'_def\<close>)
        then obtain n where
          "tryConnectIP n e d xs z m mx ips i' False (t @ [a]) \<noteq> None"
          by blast
        with tryConnectIP_next [OF go a Some nE, of n xs t]
        have "tryConnectIP (Suc n) e d xs z m mx ips i rt t \<noteq> None"
          by (simp add: i'_def)
        then show ?thesis by blast
      qed
    qed
  qed
qed

lemma mx_terminates:
  assumes H: "\<forall>opts. ignoreTLS opts \<longrightarrow> \<not> tlsFailure e opts"
  shows "\<exists>n. tryConnectMX n e d xs z m t \<noteq> None"
proof (induction "length xs - m" arbitrary: m z t)
  case 0
  then have "tryConnectMX (Suc 0) e d xs z m t \<noteq> None"
    by (simp add: tryConnectMX_Suc)
  then show ?case by blast
next
  case (Suc k)
  then have lt: "m < length xs" and k: "k = length xs - (Suc m)" by simp_all
  have next_mx: "\<And>z t. \<exists>n. tryConnectMX n e d xs z (Suc m) t \<noteq> None"
    using Suc.hyps(1) [OF k] .
  show ?case
  proof (cases "resolveIp e (exchange (xs ! m)) z")
    case (Inl err)
    from next_mx [of z t] obtain n where "tryConnectMX n e d xs z (Suc m) t \<noteq> None" by blast
    with lt Inl have "tryConnectMX (Suc n) e d xs z m t \<noteq> None"
      by (simp add: tryConnectMX_Suc)
    then show ?thesis by blast
  next
    case (Inr ipList)
    show ?thesis
    proof (cases "ipList = []")
      case True
      from next_mx [of z t] obtain n where "tryConnectMX n e d xs z (Suc m) t \<noteq> None" by blast
      with lt Inr True have "tryConnectMX (Suc n) e d xs z m t \<noteq> None"
        by (simp add: tryConnectMX_Suc)
      then show ?thesis by blast
    next
      case False
      from ip_terminates [of e d xs "Suc m" False z "xs ! m" ipList "- 1" t, OF H next_mx]
      obtain n where "tryConnectIP n e d xs z (Suc m) (xs ! m) ipList (- 1) False t \<noteq> None"
        by blast
      with lt Inr False have "tryConnectMX (Suc n) e d xs z m t \<noteq> None"
        by (simp add: tryConnectMX_Suc)
      then show ?thesis by blast
    qed
  qed
qed

lemma getConnection_terminates:
  assumes H: "\<forall>opts. ignoreTLS opts \<longrightarrow> \<not> tlsFailure e opts"
  shows "\<exists>n. getConnection n e z d \<noteq> None"
proof -
  define found where "found = (case host z of
              None \<Rightarrow> resolveMx e (domain d)
            | Some h \<Rightarrow> if h = [] then resolveMx e (domain d)
                        else Inr (Some [\<lparr>exchange = h, priority = 0\<rparr>]))"
  show ?thesis
  proof (cases found)
    case (Inl err)
    then show ?thesis by (simp add: getConnection_def found_def [symmetric])
  next
    case (Inr r)
    show ?thesis
    proof (cases r)
      case None
      with Inr show ?thesis by (simp add: getConnection_def found_def [symmetric])
    next
      case (Some xs)
      from mx_terminates [OF H] obtain n where "tryConnectMX n e d xs z 0 [] \<noteq> None" by blast
      with Inr Some have "getConnection n e z d \<noteq> None"
        by (simp add: getConnection_def found_def [symmetric])
      then show ?thesis by blast
    qed
  qed
qed

lemma traceOk_snoc:
  assumes "traceOk e z t" and "t \<noteq> [] \<longrightarrow> follows e (last t) a"
      and "tlsFailure e (a_options a) \<longrightarrow> disableStarttls z'"
      and "a_retry a \<longrightarrow> ignoreTLS (a_options a)"
      and "disableStarttls z \<longrightarrow> disableStarttls z'"
    shows "traceOk e z' (t @ [a])"
  using assms by (auto simp: traceOk_def successively_append_iff)

lemma atIP_follows:
  assumes "atIP e z t m mx ips i rt" and "t \<noteq> []"
  shows "follows e (last t) (attemptAt e d z m mx ips (if rt then i else i + 1) rt)"
  using assms by (auto simp: atIP_def follows_def retryOf_def less_prod_def less_eq_prod_def)

lemma chain:
  "(\<forall>z m t r. traceOk e z t \<longrightarrow> atMX e t m \<longrightarrow>
       tryConnectMX n e d xs z m t = Some r \<longrightarrow> settled e r) \<and>
   (\<forall>z m mx ips i rt t r. traceOk e z t \<longrightarrow> atIP e z t m mx ips i rt \<longrightarrow>
       tryConnectIP n e d xs z m mx ips i rt t = Some r \<longrightarrow> settled e r)"
proof (induction n)
  case 0
  show ?case by (simp add: tryConnectMX.simps tryConnectIP.simps)
next
  case (Suc n)
  then have IHM: "\<And>z m t r. traceOk e z t \<Longrightarrow> atMX e t m \<Longrightarrow>
       tryConnectMX n e d xs z m t = Some r \<Longrightarrow> settled e r"
    and IHI: "\<And>z m mx ips i rt t r. traceOk e z t \<Longrightarrow> atIP e z t m mx ips i rt \<Longrightarrow>
       tryConnectIP n e d xs z m mx ips i rt t = Some r \<Longrightarrow> settled e r"
    by blast+
  have M: "settled e r"
    if ok: "traceOk e z t" and at: "atMX e t m"
      and res: "tryConnectMX (Suc n) e d xs z m t = Some r" for z m t r
  proof (cases "length xs \<le> m")
    case True
    with res have "gc_zone r = z" "gc_attempts r = t"
      by (auto simp: tryConnectMX_Suc)
    with ok at show ?thesis by (simp add: settled_def atMX_def)
  next
    case False
    from at have at': "atMX e t (Suc m)" by (auto simp: atMX_def)
    show ?thesis
    proof (cases "resolveIp e (exchange (xs ! m)) z")
      case (Inl err)
      with False res have "tryConnectMX n e d xs z (Suc m) t = Some r"
        by (simp add: tryConnectMX_Suc)
      from IHM [OF ok at' this] show ?thesis .
    next
      case (Inr ipList)
      show ?thesis
      proof (cases "ipList = []")
        case True
        with False Inr res have "tryConnectMX n e d xs z (Suc m) t = Some r"
          by (simp add: tryConnectMX_Suc)
        from IHM [OF ok at' this] show ?thesis .
      next
        case ne: False
        with False Inr res
        have r: "tryConnectIP n e d xs z (Suc m) (xs ! m) ipList (- 1) False t = Some r"
          by (simp add: tryConnectMX_Suc)
        from at have "atIP e z t (Suc m) (xs ! m) ipList (- 1) False"
          by (auto simp: atMX_def atIP_def less_eq_prod_def)
        from IHI [OF ok this r] show ?thesis .
      qed
    qed
  qed
  have I: "settled e r"
    if ok: "traceOk e z t" and at: "atIP e z t m mx ips i rt"
      and res: "tryConnectIP (Suc n) e d xs z m mx ips i rt t = Some r" for z m mx ips i rt t r
  proof (cases "\<not> rt \<and> int (length ips) - 1 \<le> i")
    case True
    with res have r: "tryConnectMX n e d xs z m t = Some r"
      by (simp add: tryConnectIP_exit)
    from at True have "atMX e t m" by (auto simp: atMX_def atIP_def less_eq_prod_def)
    from IHM [OF ok this r] show ?thesis .
  next
    case False
    then have go: "rt \<or> i < int (length ips) - 1" by auto
    define i' where "i' = (if rt then i else i + 1)"
    define a where "a = attemptAt e d z m mx ips i' rt"
    have a: "a = attemptAt e d z m mx ips (if rt then i else i + 1) rt"
      by (simp add: a_def i'_def)
    have fol: "t \<noteq> [] \<longrightarrow> follows e (last t) a"
      using atIP_follows [OF at] a by simp
    have rt_flag: "rt \<longrightarrow> disableStarttls z" using at by (auto simp: atIP_def)
    then have ign: "a_retry a \<longrightarrow> ignoreTLS (a_options a)" by (simp add: a_def)
    show ?thesis
    proof (cases "connect e (a_options a)")
      case None
      then have nf: "\<not> tlsFailure e (a_options a)" by (simp add: tlsFailure_def)
      from res tryConnectIP_connected [OF go a None, of n xs t]
      have "gc_zone r = z" "gc_attempts r = t @ [a]" by auto
      moreover from traceOk_snoc [OF ok fol _ ign, of z] nf have "traceOk e z (t @ [a])" by simp
      ultimately show ?thesis using nf by (simp add: settled_def)
    next
      case (Some err)
      show ?thesis
      proof (cases "code err = ''ETLS''")
        case True
        with Some have f: "tlsFailure e (a_options a)" by (simp add: tlsFailure_def)
        from res tryConnectIP_tls [OF go a Some True, of n xs t]
        have r: "tryConnectIP n e d xs (z\<lparr>disableStarttls := True\<rparr>) m mx ips i' True (t @ [a])
                  = Some r" by (simp add: i'_def)
        have ok': "traceOk e (z\<lparr>disableStarttls := True\<rparr>) (t @ [a])"
          by (rule traceOk_snoc [OF ok fol _ ign]) simp_all
        have "atIP e (z\<lparr>disableStarttls := True\<rparr>) (t @ [a]) m mx ips i' True"
          using f by (simp add: atIP_def a_def)
        from IHI [OF ok' this r] show ?thesis .
      next
        case nE: False
        with Some have nf: "\<not> tlsFailure e (a_options a)" by (simp add: tlsFailure_def)
        from res tryConnectIP_next [OF go a Some nE, of n xs t]
        have r: "tryConnectIP n e d xs z m mx ips i' False (t @ [a]) = Some r"
          by (simp add: i'_def)
        have ok': "traceOk e z (t @ [a])"
          by (rule traceOk_snoc [OF ok fol _ ign]) (use nf in simp_all)
        have "atIP e z (t @ [a]) m mx ips i' False"
          using nf by (simp add: atIP_def a_def)
        from IHI [OF ok' this r] show ?thesis .
      qed
    qed
  qed
  from M I show ?case by blast
qed

lemma getConnection_settled:
  assumes "getConnection n e z d = Some r"
  shows "settled e r"
proof -
  have t0: "traceOk e z []" "\<And>m. atMX e [] m"
    by (simp_all add: traceOk_def atMX_def)
  have s0: "settled e \<lparr>gc_outcome = x, gc_zone = z, gc_attempts = []\<rparr>" for x
    by (simp add: settled_def traceOk_def)
  define found where "found = (case host z of
              None \<Rightarrow> resolveMx e (domain d)
            | Some h \<Rightarrow> if h = [] then resolveMx e (domain d)
                        else Inr (Some [\<lparr>exchange = h, priority = 0\<rparr>]))"
  show ?thesis
  proof (cases found)
    case (Inl err)
    with assms s0 show ?thesis by (auto simp add: getConnection_def found_def [symmetric])
  next
    case (Inr q)
    show ?thesis
    proof (cases q)
      case None
      with Inr assms s0 show ?thesis by (auto simp add: getConnection_def found_def [symmetric])
    next
      case (Some xs)
      with Inr assms have "tryConnectMX n e d xs z 0 [] = Some r"
        by (simp add: getConnection_def found_def [symmetric])
      with chain [of e n d xs] t0 show ?thesis by blast
    qed
  qed
qed

lemma prepared_headers:
  "\<exists>sigs. prepared e z d c =
            d\<lparr>headers := sigs @ \<lparr>key = ''received'',
                                  line = generateReceivedHeader e z d (o_name c)\<rparr> # headers d\<rparr>
        \<and> (\<forall>h \<in> set sigs. key h = ''dkim-signature'')
        \<and> (\<not> dkim_enabled (conf e) \<or> dkim d = None \<longrightarrow> sigs = [])
        \<and> length sigs \<le> (case dkim d of None \<Rightarrow> 0 | Some dk \<Rightarrow> length (keys dk))"
proof (cases "dkim_enabled (conf e)")
  case False
  then show ?thesis by (simp add: prepared_def withReceived_eq)
next
  case True
  let ?d1 = "withReceived e z d (o_name c)"
  from signMessage_headers [of e ?d1] obtain sigs where
    s: "signMessage e ?d1 = ?d1\<lparr>headers := sigs @ headers ?d1\<rparr>"
    and k: "\<forall>h \<in> set sigs. key h = ''dkim-signature''"
    and l: "length sigs \<le> (case dkim ?d1 of None \<Rightarrow> 0 | Some dk \<Rightarrow> length (keys dk))"
    by blast
  have dk: "dkim ?d1 = dkim d" by (simp add: withReceived_eq)
  have "prepared e z d c =
            d\<lparr>headers := sigs @ \<lparr>key = ''received'',
                                  line = generateReceivedHeader e z d (o_name c)\<rparr> # headers d\<rparr>"
    using True s by (simp add: prepared_def withReceived_eq)
  moreover have "dkim d = None \<longrightarrow> sigs = []" using l dk by auto
  ultimately show ?thesis using k l dk True by auto
qed

lemma deliver_Inl:
  "deliver e z d (Inl err) s = handleResponseError e (withReceived e z d (os_hostname e)) err s"
  by (simp add: deliver_def)

lemma deliver_Inr:
  "deliver e z d (Inr c) s =
     (let d2 = prepared e z d c;
          mh = build e (headers d2);
          args = \<lparr>s_from = srsFrom e d2, s_to = to d2,
                   s_size = length (generateReceivedHeader e z d (o_name c)) + length mh
                            + bodySize d2\<rparr>;
          s1 = s\<lparr>smtp := smtp s @ [Send args mh, Close]\<rparr>
      in case send e c args mh of
           SendError err \<Rightarrow> handleResponseError e d2 err s1
         | SendOk info \<Rightarrow>
             (case releaseDelivery e d2 s1 of
                (Some err, s2) \<Rightarrow> emit err (s2\<lparr>closing := True\<rparr>)
              | (None, s2) \<Rightarrow> s2))"
  by (simp add: deliver_def prepared_def Let_def)

lemma sendBounceMessage_smtp [simp]: "smtp (sendBounceMessage e d b r s) = smtp s"
  by (simp add: sendBounceMessage_def sendCommand_def emit_def split: option.splits)

lemma sendBounceMessage_hooks [simp]: "hooks (sendBounceMessage e d b r s) = hooks s"
  by (simp add: sendBounceMessage_def sendCommand_def emit_def split: option.splits)

lemma handleResponseError_smtp [simp]: "smtp (handleResponseError e d err s) = smtp s"
  by (simp add: handleResponseError_def Let_def deferDelivery_def releaseDelivery_def
        sendCommand_def emit_def split: option.splits)


lemma srsFrom_cong: "from' d' = from' d \<Longrightarrow> srsFrom e d' = srsFrom e d"
  by (simp add: srsFrom_def)

lemma deliver_smtp:
  "\<exists>sigs. (\<forall>h \<in> set sigs. key h = ''dkim-signature'')
      \<and> (\<not> dkim_enabled (conf e) \<or> dkim d = None \<longrightarrow> sigs = [])
      \<and> length sigs \<le> (case dkim d of None \<Rightarrow> 0 | Some dk \<Rightarrow> length (keys dk))
      \<and> prepared e z d c = d\<lparr>headers := sigs @ \<lparr>key = ''received'',
                                  line = generateReceivedHeader e z d (o_name c)\<rparr> # headers d\<rparr>
      \<and> smtp (deliver e z d (Inr c) s) =
          smtp s @
          [Send \<lparr>s_from = srsFrom e d, s_to = to d,
                 s_size = length (generateReceivedHeader e z d (o_name c))
                   + length (build e (sigs @ \<lparr>key = ''received'',
                       line = generateReceivedHeader e z d (o_name c)\<rparr> # headers d))
                   + bodySize d\<rparr>
             (build e (sigs @ \<lparr>key = ''received'',
                       line = generateReceivedHeader e z d (o_name c)\<rparr> # headers d)),
           Close]"
proof -
  from prepared_headers [of e z d c] obtain sigs where
    p: "prepared e z d c = d\<lparr>headers := sigs @ \<lparr>key = ''received'',
                                  line = generateReceivedHeader e z d (o_name c)\<rparr> # headers d\<rparr>"
    and r: "\<forall>h \<in> set sigs. key h = ''dkim-signature''"
      "\<not> dkim_enabled (conf e) \<or> dkim d = None \<longrightarrow> sigs = []"
      "length sigs \<le> (case dkim d of None \<Rightarrow> 0 | Some dk \<Rightarrow> length (keys dk))"
    by auto
  have "srsFrom e (prepared e z d c) = srsFrom e d"
    by (rule srsFrom_cong) (simp add: p)
  then have "smtp (deliver e z d (Inr c) s) =
          smtp s @
          [Send \<lparr>s_from = srsFrom e d, s_to = to d,
                 s_size = length (generateReceivedHeader e z d (o_name c))
                   + length (build e (sigs @ \<lparr>key = ''received'',
                       line = generateReceivedHeader e z d (o_name c)\<rparr> # headers d))
                   + bodySize d\<rparr>
             (build e (sigs @ \<lparr>key = ''received'',
                       line = generateReceivedHeader e z d (o_name c)\<rparr> # headers d)),
           Close]"
    by (simp add: deliver_Inr Let_def p releaseDelivery_def sendCommand_def emit_def
          split: send_result.splits option.splits)
  with p r show ?thesis by (intro exI [of _ sigs]) simp
qed

lemma sendNext_job:
  assumes "\<not> closing s" "queue_get e = GetJob dl" "id' dl \<noteq> []"
  shows "sendNext n e z s =
           (case getConnection n e z (addSpamHeader dl) of
              None \<Rightarrow> None
            | Some r \<Rightarrow> Some (gc_zone r,
                deliver e (gc_zone r) (addSpamHeader dl) (gc_outcome r)
                  (s\<lparr>issued := issued s @ [GET], emptyChecks := 0\<rparr>)))"
  using assms by (simp add: sendNext_def Let_def)

lemma new_commands_append: "issued s' = issued s @ xs \<Longrightarrow> new_commands s s' = xs"
  by (simp add: new_commands_def)

lemma ttl_cap: "4 \<le> n \<Longrightarrow> min ((5::nat) ^ (n + 1)) 1024 = 1024"
proof -
  assume "4 \<le> n"
  then have "(5::nat) ^ 5 \<le> 5 ^ (n + 1)" by (intro power_increasing) simp_all
  then show ?thesis by simp
qed

lemma ttl_mono: "n \<le> n' \<Longrightarrow> min ((5::nat) ^ (n + 1)) 1024 \<le> min (5 ^ (n' + 1)) 1024"
proof -
  assume "n \<le> n'"
  then have "(5::nat) ^ (n + 1) \<le> 5 ^ (n' + 1)" by (intro power_increasing) simp_all
  then show ?thesis by (simp add: min_le_iff_disj)
qed

lemma handleResponseError_defer:
  assumes "DEFER i q l t \<in> set (new_commands s (handleResponseError e d err s))"
  shows "t = min (5 ^ (deferredCount d + 1)) 1024 * 60 * 1000"
  using assms
  by (simp add: new_commands_append [OF handleResponseError_issued] split: if_splits)

lemma deliver_cases:
  "\<exists>h. issued (deliver e z d res s) = issued s @ [RELEASE (id' d) (seq d) (lock d)]
      \<or> (\<exists>err s1. issued s1 = issued s
            \<and> deliver e z d res s = handleResponseError e (d\<lparr>headers := h\<rparr>) err s1)"
proof (cases res)
  case (Inl err)
  then show ?thesis
    by (auto simp: deliver_Inl withReceived_eq)
next
  case (Inr c)
  from prepared_headers [of e z d c] obtain sigs where
    p: "prepared e z d c = d\<lparr>headers := sigs @ \<lparr>key = ''received'',
                                  line = generateReceivedHeader e z d (o_name c)\<rparr> # headers d\<rparr>"
    by auto
  let ?h = "sigs @ \<lparr>key = ''received'',
                                  line = generateReceivedHeader e z d (o_name c)\<rparr> # headers d"
  let ?mh = "build e ?h"
  let ?args = "\<lparr>s_from = srsFrom e (d\<lparr>headers := ?h\<rparr>), s_to = to d,
                   s_size = length (generateReceivedHeader e z d (o_name c)) + length ?mh
                            + bodySize d\<rparr>"
  let ?s1 = "s\<lparr>smtp := smtp s @ [Send ?args ?mh, Close]\<rparr>"
  show ?thesis
  proof (cases "send e c ?args ?mh")
    case (SendError err)
    with Inr p have "deliver e z d res s = handleResponseError e (d\<lparr>headers := ?h\<rparr>) err ?s1"
      by (simp add: deliver_Inr Let_def)
    moreover have "issued ?s1 = issued s" by simp
    ultimately show ?thesis by blast
  next
    case (SendOk info)
    with Inr p have "issued (deliver e z d res s) = issued s @ [RELEASE (id' d) (seq d) (lock d)]"
      by (simp add: deliver_Inr Let_def releaseDelivery_def sendCommand_def emit_def
            split: option.splits)
    then show ?thesis by blast
  qed
qed

lemma deliver_defer:
  assumes "DEFER i q l t \<in> set (new_commands s (deliver e z d res s))"
  shows "t = min (5 ^ (deferredCount d + 1)) 1024 * 60 * 1000"
proof -
  from deliver_cases [of e z d res s] obtain h where
    c: "issued (deliver e z d res s) = issued s @ [RELEASE (id' d) (seq d) (lock d)]
      \<or> (\<exists>err s1. issued s1 = issued s
            \<and> deliver e z d res s = handleResponseError e (d\<lparr>headers := h\<rparr>) err s1)"
    by blast
  then show ?thesis
  proof
    assume "issued (deliver e z d res s) = issued s @ [RELEASE (id' d) (seq d) (lock d)]"
    from new_commands_append [OF this] assms show ?thesis by simp
  next
    assume "\<exists>err s1. issued s1 = issued s
            \<and> deliver e z d res s = handleResponseError e (d\<lparr>headers := h\<rparr>) err s1"
    then obtain err s1 where s1: "issued s1 = issued s"
      and eq: "deliver e z d res s = handleResponseError e (d\<lparr>headers := h\<rparr>) err s1"
      by blast
    from s1 have "new_commands s (deliver e z d res s) = new_commands s1 (deliver e z d res s)"
      by (simp add: new_commands_def)
    with assms eq have "DEFER i q l t \<in> set (new_commands s1 (handleResponseError e (d\<lparr>headers := h\<rparr>) err s1))"
      by simp
    from handleResponseError_defer [OF this] show ?thesis by (simp add: deferredCount_def)
  qed
qed

lemma addSpamHeader_fields:
  "id' (addSpamHeader d) = id' d" "seq (addSpamHeader d) = seq d" "lock (addSpamHeader d) = lock d"
  "from' (addSpamHeader d) = from' d" "to (addSpamHeader d) = to d"
  "deferred (addSpamHeader d) = deferred d" "dkim (addSpamHeader d) = dkim d"
  "bodySize (addSpamHeader d) = bodySize d"
  by (simp_all add: addSpamHeader_def Let_def split: option.splits)

lemma sendNext_cases:
  assumes "sendNext n e z s = Some (z', s')"
  shows "(closing s \<and> s' = s) \<or> new_commands s s' = [GET]
     \<or> (\<exists>dl r. queue_get e = GetJob dl \<and> id' dl \<noteq> [] \<and> \<not> closing s
           \<and> getConnection n e z (addSpamHeader dl) = Some r \<and> z' = gc_zone r
           \<and> s' = deliver e (gc_zone r) (addSpamHeader dl) (gc_outcome r)
                    (s\<lparr>issued := issued s @ [GET], emptyChecks := 0\<rparr>))"
proof (cases "closing s")
  case True
  with assms show ?thesis by (simp add: sendNext_def)
next
  case False
  show ?thesis
  proof (cases "queue_get e")
    case (GetError err)
    with False assms show ?thesis
      by (auto simp: sendNext_def Let_def emit_def new_commands_def)
  next
    case GetEmpty
    with False assms show ?thesis
      by (auto simp: sendNext_def Let_def new_commands_def)
  next
    case (GetJob dl)
    show ?thesis
    proof (cases "id' dl = []")
      case True
      with GetJob False assms show ?thesis
        by (auto simp: sendNext_def Let_def new_commands_def)
    next
      case ne: False
      from assms sendNext_job [OF False GetJob ne, of n z]
      show ?thesis using GetJob ne False by (auto split: option.splits)
    qed
  qed
qed

lemma new_commands_GET:
  "new_commands s (deliver e z d res (s\<lparr>issued := issued s @ [GET], emptyChecks := k\<rparr>)) =
     GET # new_commands (s\<lparr>issued := issued s @ [GET], emptyChecks := k\<rparr>)
             (deliver e z d res (s\<lparr>issued := issued s @ [GET], emptyChecks := k\<rparr>))"
proof -
  let ?s0 = "s\<lparr>issued := issued s @ [GET], emptyChecks := k\<rparr>"
  from deliver_cases [of e z d res ?s0] obtain xs where
    "issued (deliver e z d res ?s0) = issued ?s0 @ xs"
    by (auto simp: handleResponseError_issued)
  then show ?thesis by (simp add: new_commands_def)
qed

lemma sendNext_defer:
  assumes "sendNext n e z s = Some (z', s')" and "queue_get e = GetJob dl"
      and "DEFER i q l t \<in> set (new_commands s s')"
  shows "t = min (5 ^ (deferredCount dl + 1)) 1024 * 60 * 1000"
proof -
  from sendNext_cases [OF assms(1)] assms(2,3)
  obtain r :: gc_result where "DEFER i q l t \<in> set (new_commands s
      (deliver e (gc_zone r) (addSpamHeader dl) (gc_outcome r)
                    (s\<lparr>issued := issued s @ [GET], emptyChecks := 0\<rparr>)))"
    by (auto simp: new_commands_def)
  then have "DEFER i q l t \<in> set (new_commands (s\<lparr>issued := issued s @ [GET], emptyChecks := 0\<rparr>)
      (deliver e (gc_zone r) (addSpamHeader dl) (gc_outcome r)
                    (s\<lparr>issued := issued s @ [GET], emptyChecks := 0\<rparr>)))"
    by (simp add: new_commands_GET)
  from deliver_defer [OF this] show ?thesis
    by (simp add: deferredCount_def addSpamHeader_fields)
qed

lemma ex_getConnection:
  "getConnection 5 (ex_env j sr) ex_zone d =
     Some \<lparr>gc_outcome = Inr ex_options, gc_zone = ex_zone\<lparr>disableStarttls := True\<rparr>,
           gc_attempts =
             [\<lparr>a_mx = 1, a_ip = 0, a_retry = False,
                a_options = ex_options\<lparr>requireTLS := True, ignoreTLS := False\<rparr>\<rparr>,
              \<lparr>a_mx = 1, a_ip = 0, a_retry = True, a_options = ex_options\<rparr>]\<rparr>"
  by (simp add: getConnection_def ex_env_def ex_zone_def ex_options_def ex_error_def
        eval_nat_numeral tryConnectMX.simps tryConnectIP.simps Let_def)

lemma prepared_fields:
  "id' (prepared e z d c) = id' d" "seq (prepared e z d c) = seq d"
  "lock (prepared e z d c) = lock d" "from' (prepared e z d c) = from' d"
  "to (prepared e z d c) = to d" "deferred (prepared e z d c) = deferred d"
  "bodySize (prepared e z d c) = bodySize d"
  using prepared_headers [of e z d c] by auto

lemma ex_handle_defer:
  "new_commands ex_sender
     (handleResponseError (ex_env j sr) (ex_delivery hs) (ex_error [] ''451 4.3.0 try later'')
        ex_sender) = [DEFER ''m1'' ''1'' ''L1'' 300000]"
  by (simp add: new_commands_append [OF handleResponseError_issued] ex_env_def ex_delivery_def
        ex_error_def ex_classify_def deferredCount_def)

lemma ex_sendNext_defer:
  "\<exists>s'. sendNext 5 (ex_env (GetJob (ex_delivery [])) (SendError (ex_error [] ''451 4.3.0 try later'')))
           ex_zone ex_sender = Some (ex_zone\<lparr>disableStarttls := True\<rparr>, s')
        \<and> new_commands ex_sender s' = [GET, DEFER ''m1'' ''1'' ''L1'' 300000]"
proof -
  let ?e = "ex_env (GetJob (ex_delivery [])) (SendError (ex_error [] ''451 4.3.0 try later''))"
  have j: "\<not> closing ex_sender" "queue_get ?e = GetJob (ex_delivery [])" "id' (ex_delivery []) \<noteq> []"
    by (simp_all add: ex_sender_def ex_env_def ex_delivery_def)
  let ?s0 = "ex_sender\<lparr>issued := issued ex_sender @ [GET], emptyChecks := 0\<rparr>"
  let ?d = "addSpamHeader (ex_delivery [])"
  let ?z = "ex_zone\<lparr>disableStarttls := True\<rparr>"
  have eq: "sendNext 5 ?e ex_zone ex_sender = Some (?z, deliver ?e ?z ?d (Inr ex_options) ?s0)"
    by (simp add: sendNext_job [OF j] ex_getConnection)
  have snd: "send ?e ex_options a h = SendError (ex_error [] ''451 4.3.0 try later'')" for a h
    by (simp add: ex_env_def)
  have "issued (deliver ?e ?z ?d (Inr ex_options) ?s0) = [GET, DEFER ''m1'' ''1'' ''L1'' 300000]"
    by (simp add: deliver_Inr Let_def snd handleResponseError_issued prepared_fields
          addSpamHeader_fields deferredCount_def)
       (simp add: ex_env_def ex_error_def ex_classify_def ex_delivery_def ex_sender_def)
  then have nc: "new_commands ex_sender (deliver ?e ?z ?d (Inr ex_options) ?s0)
       = [GET, DEFER ''m1'' ''1'' ''L1'' 300000]"
    by (simp add: new_commands_def ex_sender_def)
  show ?thesis
    by (rule exI [of _ "deliver ?e ?z ?d (Inr ex_options) ?s0"]) (simp only: eq nc simp_thms)
qed

lemma timeouts_append: "timeouts (xs @ ys) = timeouts xs @ timeouts ys"
  by (induction xs rule: timeouts.induct) simp_all

lemma posts_append: "posts (xs @ ys) = posts xs @ posts ys"
  by (induction xs rule: posts.induct) simp_all

lemma notifyBounce_error:
  "fetch e r = StreamError err \<Longrightarrow>
     notifyBounce e body r s =
       (if r \<le> 5
        then notifyBounce e body (r + 1)
               (s\<lparr>hooks := hooks s @ [Post body, LogError ''Could not send bounce info'',
                                        LogError (message err), SetTimeout ((r + 1) ^ 2 * 1000)]\<rparr>)
        else s\<lparr>hooks := hooks s @ [Post body, LogError ''Could not send bounce info'',
                                    LogError (message err)]\<rparr>)"
  by (subst notifyBounce.simps) (simp add: Let_def)

lemma notifyBounce_failing:
  assumes "\<forall>n. fetch e n \<noteq> StreamEnd" and "r \<le> 6"
  shows "timeouts (hooks (notifyBounce e body r s)) =
           timeouts (hooks s) @ map (\<lambda>k. k ^ 2 * 1000) [r + 1 ..< 7]
         \<and> posts (hooks (notifyBounce e body r s)) = posts (hooks s) @ replicate (7 - r) body"
  using assms(2)
proof (induction "6 - r" arbitrary: r s)
  case 0
  then have r: "r = 6" by simp
  from assms(1) obtain err where f: "fetch e r = StreamError err"
    by (cases "fetch e r") auto
  then have f6: "fetch e 6 = StreamError err" by (simp add: r)
  show ?case
    by (simp add: notifyBounce_error [OF f6] r timeouts_append posts_append)
next
  case (Suc k)
  then have r: "r \<le> 5" and k: "k = 6 - (r + 1)" and r1: "r + 1 \<le> 6" by simp_all
  from assms(1) obtain err where f: "fetch e r = StreamError err"
    by (cases "fetch e r") auto
  have u: "[r + 1 ..< 7] = (r + 1) # [r + 1 + 1 ..< 7]"
    using r by (simp add: upt_rec)
  have v: "replicate (7 - r) body = body # replicate (7 - (r + 1)) body"
    using r by (cases "7 - r") simp_all
  from Suc.hyps(1) [OF k r1] show ?case
    by (simp only: notifyBounce_error [OF f] r if_True u v)
       (simp add: timeouts_append posts_append)
qed

lemma lastIndexOf_absent: "c \<notin> set s \<Longrightarrow> lastIndexOf s c = - 1"
  by (induction s) (auto simp add: Let_def)

lemma lastIndexOf_split: "c \<notin> set dm \<Longrightarrow> lastIndexOf (l @ c # dm) c = int (length l)"
  by (induction l) (simp_all add: Let_def lastIndexOf_absent)

lemma substr_domain:
  "c \<notin> set dm \<Longrightarrow> substr (l @ c # dm) (lastIndexOf (l @ c # dm) c + 1) None = dm"
proof -
  assume "c \<notin> set dm"
  then have "lastIndexOf (l @ c # dm) c + 1 = int (Suc (length l))"
    by (simp add: lastIndexOf_split)
  then show ?thesis by (simp add: substr_def Let_def del: of_nat_Suc)
qed

lemma substr_local:
  "c \<notin> set dm \<Longrightarrow> substr (l @ c # dm) 0 (Some (lastIndexOf (l @ c # dm) c)) = l"
  by (simp add: substr_def Let_def lastIndexOf_split)

lemma normalizeHeader_From [simp]: "normalizeHeader ''From'' = ''from''"
  by code_simp

lemma substr_whole: "substr s 0 None = s"
  by (simp add: substr_def)

lemma substr_negative: "substr s 0 (Some (- 1)) = []"
  by (simp add: substr_def)

lemma srsFrom_split:
  assumes "srs_enabled (conf e)" "from' d \<noteq> []"
    and "from' d = l @ CHR ''@'' # dm \<and> CHR ''@'' \<notin> set dm
         \<or> CHR ''@'' \<notin> set (from' d) \<and> l = [] \<and> dm = from' d"
  shows "srsFrom e d =
           (if toLowerCase e dm \<in> set (srs_excludeDomains (conf e)) then from' d
            else srs_rewrite e l (toLowerCase e dm) @ ''@'' @ srs_rewriteDomain (conf e))"
  using assms(3)
proof (elim disjE conjE)
  assume "from' d = l @ CHR ''@'' # dm" "CHR ''@'' \<notin> set dm"
  with assms(1) show ?thesis
    by (simp add: srsFrom_def Let_def substr_domain substr_local)
next
  assume a: "CHR ''@'' \<notin> set (from' d)" "l = []" "dm = from' d"
  then have "lastIndexOf (from' d) CHR ''@'' = - 1" by (simp add: lastIndexOf_absent)
  with assms(1,2) a show ?thesis
    by (simp add: srsFrom_def Let_def substr_whole substr_negative)
qed

lemma last_at_split:
  "(\<exists>l dm. s = l @ CHR ''@'' # dm \<and> CHR ''@'' \<notin> set dm) \<or> CHR ''@'' \<notin> set s"
proof (cases "CHR ''@'' \<in> set s")
  case True
  then obtain l dm where "s = l @ CHR ''@'' # dm" "CHR ''@'' \<notin> set dm"
    by (auto dest: split_list_last)
  then show ?thesis by blast
next
  case False
  then show ?thesis by simp
qed

lemma prepared_From:
  "get ''From'' (headers (prepared e z d c)) = get ''From'' (headers d)"
proof -
  from prepared_headers [of e z d c] obtain sigs where
    p: "prepared e z d c = d\<lparr>headers := sigs @ \<lparr>key = ''received'',
                                  line = generateReceivedHeader e z d (o_name c)\<rparr> # headers d\<rparr>"
    and k: "\<forall>h \<in> set sigs. key h = ''dkim-signature''"
    by auto
  from k have "filter (\<lambda>h. key h = ''from'') sigs = []"
    by (auto simp: filter_empty_conv)
  then show ?thesis by (simp add: p get_def)
qed

lemma deliver_sent:
  "smtp (deliver e z d (Inr c) s) =
     smtp s @
       [Send \<lparr>s_from = srsFrom e d, s_to = to d,
               s_size = length (generateReceivedHeader e z d (o_name c))
                        + length (build e (headers (prepared e z d c))) + bodySize d\<rparr>
          (build e (headers (prepared e z d c))), Close]"
proof -
  have "srsFrom e (prepared e z d c) = srsFrom e d"
    by (rule srsFrom_cong) (simp add: prepared_fields)
  then show ?thesis
    by (simp add: deliver_Inr Let_def prepared_fields releaseDelivery_def sendCommand_def
          emit_def split: send_result.splits option.splits)
qed

lemma ex_prepared:
  "prepared (ex_env j sr) z (ex_delivery hs) ex_options =
     (ex_delivery hs)\<lparr>headers :=
        [\<lparr>key = ''dkim-signature'', line = ''DKIM-Signature: k1''\<rparr>,
         \<lparr>key = ''received'', line = ''Received: from out.test''\<rparr>,
         \<lparr>key = ''from'', line = ''From: a@X.example''\<rparr>] @ hs\<rparr>"
  by (simp add: prepared_def withReceived_eq signMessage_def addFormatted_def ex_env_def
        ex_config_def ex_delivery_def ex_options_def Let_def)


lemma handle_bounce_headers:
  "BOUNCE i f t q h rp cat m \<in> set (new_commands s (handleResponseError e d err s)) \<Longrightarrow>
     h = headers d"
  by (simp add: new_commands_append [OF handleResponseError_issued] getList_def
        split: if_splits)

lemma deliver_Inr_cases:
  "issued (deliver e z d (Inr c) s) = issued s @ [RELEASE (id' d) (seq d) (lock d)]
   \<or> (\<exists>err s1. issued s1 = issued s
         \<and> deliver e z d (Inr c) s = handleResponseError e (prepared e z d c) err s1)"
proof -
  let ?mh = "build e (headers (prepared e z d c))"
  let ?args = "\<lparr>s_from = srsFrom e (prepared e z d c), s_to = to (prepared e z d c),
                   s_size = length (generateReceivedHeader e z d (o_name c)) + length ?mh
                            + bodySize (prepared e z d c)\<rparr>"
  let ?s1 = "s\<lparr>smtp := smtp s @ [Send ?args ?mh, Close]\<rparr>"
  show ?thesis
  proof (cases "send e c ?args ?mh")
    case (SendError err)
    then have "deliver e z d (Inr c) s = handleResponseError e (prepared e z d c) err ?s1"
      by (simp add: deliver_Inr Let_def)
    moreover have "issued ?s1 = issued s" by simp
    ultimately show ?thesis by (intro disjI2 exI [of _ err] exI [of _ ?s1]) simp
  next
    case (SendOk info)
    then have "issued (deliver e z d (Inr c) s) = issued s @ [RELEASE (id' d) (seq d) (lock d)]"
      by (simp add: deliver_Inr Let_def releaseDelivery_def sendCommand_def emit_def
            prepared_fields split: option.splits)
    then show ?thesis by (rule disjI1)
  qed
qed

lemma new_commands_cong: "issued s1 = issued s \<Longrightarrow> new_commands s1 s' = new_commands s s'"
  by (simp add: new_commands_def)

lemma deliver_bounce_headers:
  assumes "BOUNCE i f t q h rp cat m \<in> set (new_commands s (deliver e z d res s))"
  shows "h = headers (case res of Inl err \<Rightarrow> withReceived e z d (os_hostname e)
                       | Inr c \<Rightarrow> prepared e z d c)"
proof (cases res)
  case (Inl err)
  with assms handle_bounce_headers show ?thesis by (simp add: deliver_Inl)
next
  case (Inr c)
  from deliver_Inr_cases [of e z d c s] show ?thesis
  proof
    assume "issued (deliver e z d (Inr c) s) = issued s @ [RELEASE (id' d) (seq d) (lock d)]"
    from new_commands_append [OF this] assms Inr show ?thesis by simp
  next
    assume "\<exists>err s1. issued s1 = issued s
         \<and> deliver e z d (Inr c) s = handleResponseError e (prepared e z d c) err s1"
    then obtain err s1 where s1: "issued s1 = issued s"
      and eq: "deliver e z d (Inr c) s = handleResponseError e (prepared e z d c) err s1"
      by (elim exE conjE)
    from assms Inr eq new_commands_cong [OF s1]
    have "BOUNCE i f t q h rp cat m
            \<in> set (new_commands s1 (handleResponseError e (prepared e z d c) err s1))"
      by simp
    from handle_bounce_headers [OF this] Inr show ?thesis by simp
  qed
qed

lemma received_count_spam:
  "get ''Received'' (headers (addSpamHeader d)) = get ''Received'' (headers d)"
proof -
  from addSpamHeader_headers [of d] obtain sp where
    a: "addSpamHeader d = d\<lparr>headers := headers d @ sp\<rparr>"
    and k: "\<forall>h \<in> set sp. key h = ''x-zone-spam-status''"
    by (elim exE conjE)
  from k have "filter (\<lambda>h. key h = ''received'') sp = []"
    by (auto simp: filter_empty_conv)
  then show ?thesis by (simp add: a get_def)
qed

lemma received_count_prepared:
  "get ''Received'' (headers (prepared e z d c)) =
     generateReceivedHeader e z d (o_name c) # get ''Received'' (headers d)"
proof -
  from prepared_headers [of e z d c] obtain sigs where
    p: "prepared e z d c = d\<lparr>headers := sigs @ \<lparr>key = ''received'',
                                  line = generateReceivedHeader e z d (o_name c)\<rparr> # headers d\<rparr>"
    and k: "\<forall>h \<in> set sigs. key h = ''dkim-signature''"
    by auto
  from k have "filter (\<lambda>h. key h = ''received'') sigs = []"
    by (auto simp: filter_empty_conv)
  then show ?thesis by (simp add: p get_def)
qed

lemma received_count_withReceived:
  "get ''Received'' (headers (withReceived e z d h)) =
     generateReceivedHeader e z d h # get ''Received'' (headers d)"
  by (simp add: withReceived_eq get_def)




lemma ex_sendNext:
  "sendNext 5 (ex_env (GetJob (ex_delivery hs)) sr) ex_zone ex_sender =
     Some (ex_zone\<lparr>disableStarttls := True\<rparr>,
           deliver (ex_env (GetJob (ex_delivery hs)) sr) (ex_zone\<lparr>disableStarttls := True\<rparr>)
             (addSpamHeader (ex_delivery hs)) (Inr ex_options)
             (ex_sender\<lparr>issued := issued ex_sender @ [GET], emptyChecks := 0\<rparr>))"
proof -
  let ?e = "ex_env (GetJob (ex_delivery hs)) sr"
  have j: "\<not> closing ex_sender" "queue_get ?e = GetJob (ex_delivery hs)"
    "id' (ex_delivery hs) \<noteq> []"
    by (simp_all add: ex_sender_def ex_env_def ex_delivery_def)
  show ?thesis by (simp add: sendNext_job [OF j] ex_getConnection)
qed


lemma ex_reject_facts:
  "action (bounces_check (ex_env j sr) (response (ex_error [] ''550 5.1.1 no such user'')))
     = ''reject''"
  "deferredCount (ex_delivery hs) \<le> 6"
  "queue (ex_env j sr) c = None"
  "bounces_url (conf (ex_env j sr)) \<noteq> []"
  "bounces_enabled (conf (ex_env j sr))"
  "from' (ex_delivery hs) \<noteq> []"
  "id' (ex_delivery hs) = ''m1''" "seq (ex_delivery hs) = ''1''" "lock (ex_delivery hs) = ''L1''"
  by (simp_all add: ex_env_def ex_error_def ex_classify_def ex_config_def ex_delivery_def
        deferredCount_def)

lemma ex_addSpamHeader: "addSpamHeader (ex_delivery hs) = ex_delivery hs"
  by (simp add: addSpamHeader_def ex_delivery_def)

lemma ex_get_Received: "get ''Received'' (headers (ex_delivery hs)) = get ''Received'' hs"
  by (simp add: get_def ex_delivery_def)

lemma ex_deliver_reject:
  "issued (deliver (ex_env j (SendError (ex_error [] ''550 5.1.1 no such user'')))
             z (addSpamHeader (ex_delivery hs)) (Inr ex_options)
             (ex_sender\<lparr>issued := issued ex_sender @ [GET], emptyChecks := 0\<rparr>)) =
     GET # RELEASE ''m1'' ''1'' ''L1'' #
     (if 25 \<le> length (get ''Received'' hs) then []
      else [BOUNCE ''m1'' ''a@X.example'' [''b@y.test''] ''1''
              ([\<lparr>key = ''dkim-signature'', line = ''DKIM-Signature: k1''\<rparr>,
                \<lparr>key = ''received'', line = ''Received: from out.test''\<rparr>,
                \<lparr>key = ''from'', line = ''From: a@X.example''\<rparr>] @ hs)
              ''a@X.example'' ''recipient'' ''550 5.1.1 no such user''])"
proof -
  let ?e = "ex_env j (SendError (ex_error [] ''550 5.1.1 no such user''))"
  have snd: "send ?e ex_options a h = SendError (ex_error [] ''550 5.1.1 no such user'')" for a h
    by (simp add: ex_env_def)
  have r: "response (ex_error [] ''550 5.1.1 no such user'') = Some ''550 5.1.1 no such user''"
    "category (bounces_check ?e (Some ''550 5.1.1 no such user'')) = ''recipient''"
    "formatSMTPResponse ?e x = x" "to (ex_delivery hs) = [''b@y.test'']"
    "from' (ex_delivery hs) = ''a@X.example''"
    "action (bounces_check ?e (Some ''550 5.1.1 no such user'')) = ''reject''" for x
    by (simp_all add: ex_env_def ex_error_def ex_classify_def ex_delivery_def)
  have c: "length (get ''Received'' (headers (prepared ?e z (ex_delivery hs) ex_options)))
             = Suc (length (get ''Received'' hs))"
    by (simp add: received_count_prepared ex_get_Received)
  have i: "issued ex_sender = []" by (simp add: ex_sender_def)
  have dc: "deferredCount (prepared ?e z (ex_delivery hs) ex_options) = 0"
    by (simp add: deferredCount_def prepared_fields) (simp add: ex_delivery_def)
  show ?thesis
    by (simp add: deliver_Inr Let_def snd handleResponseError_issued prepared_fields
          ex_addSpamHeader c dc ex_reject_facts r i getList_def)
       (simp add: ex_prepared)
qed


lemma follows_key:
  assumes H: "\<forall>opts. ignoreTLS opts \<longrightarrow> \<not> tlsFailure e opts"
      and "a_retry a \<longrightarrow> ignoreTLS (a_options a)" and "follows e a b"
  shows "(a_mx a, a_ip a, a_retry a) < (a_mx b, a_ip b, a_retry b)"
proof (cases "tlsFailure e (a_options a)")
  case True
  with H have "\<not> ignoreTLS (a_options a)" by blast
  with assms(2) have "\<not> a_retry a" by blast
  with True assms(3) show ?thesis
    by (simp add: follows_def retryOf_def less_prod_def)
next
  case False
  with assms(3) show ?thesis
    by (auto simp add: follows_def less_prod_def)
qed

lemma count_distinct_key:
  "distinct (map f xs) \<Longrightarrow> length (filter (\<lambda>x. f x = k) xs) \<le> 1"
proof (induction xs)
  case Nil
  show ?case by simp
next
  case (Cons x xs)
  show ?case
  proof (cases "f x = k")
    case True
    from Cons.prems have "\<forall>y \<in> set xs. f x \<noteq> f y" by (simp add: image_iff)
    with True have "\<forall>y \<in> set xs. f y \<noteq> k" by (metis)
    then have "filter (\<lambda>x. f x = k) xs = []" by (simp add: filter_empty_conv)
    with True show ?thesis by simp
  next
    case False
    with Cons show ?thesis by simp
  qed
qed

lemma trace_keys_distinct:
  assumes H: "\<forall>opts. ignoreTLS opts \<longrightarrow> \<not> tlsFailure e opts" and "traceOk e z t"
  shows "distinct (map (\<lambda>a. (a_mx a, a_ip a, a_retry a)) t)"
proof -
  let ?key = "\<lambda>a. (a_mx a, a_ip a, a_retry a)"
  from assms(2) have s: "successively (follows e) t"
    and i: "\<forall>a \<in> set t. a_retry a \<longrightarrow> ignoreTLS (a_options a)"
    by (simp_all add: traceOk_def)
  have "successively (\<lambda>a b. ?key a < ?key b) t"
    by (rule successively_mono [OF s]) (use i H in \<open>blast intro: follows_key\<close>)
  then have "successively (<) (map ?key t)" by (simp add: successively_map)
  then have "sorted_wrt (<) (map ?key t)"
    by (simp add: successively_conv_sorted_wrt [OF transp_on_less])
  then show ?thesis by (simp add: strict_sorted_iff)
qed

lemma one_retry_per_slot:
  assumes H: "\<forall>opts. ignoreTLS opts \<longrightarrow> \<not> tlsFailure e opts" and "traceOk e z t"
  shows "length (filter (\<lambda>a. a_retry a \<and> a_mx a = m \<and> a_ip a = i) t) \<le> 1"
proof -
  have "(\<lambda>a. a_retry a \<and> a_mx a = m \<and> a_ip a = i)
          = (\<lambda>a. (a_mx a, a_ip a, a_retry a) = (m, i, True))"
    by auto
  then have "length (filter (\<lambda>a. a_retry a \<and> a_mx a = m \<and> a_ip a = i) t)
      = length (filter (\<lambda>a. (a_mx a, a_ip a, a_retry a) = (m, i, True)) t)"
    by (rule arg_cong)
  also have "\<dots> \<le> 1"
    by (rule count_distinct_key [OF trace_keys_distinct [OF assms]])
  finally show ?thesis .
qed

lemma settled_retry:
  assumes "settled e r" and "k < length (gc_attempts r)"
      and "tlsFailure e (a_options (gc_attempts r ! k))"
  shows "Suc k < length (gc_attempts r)
         \<and> retryOf (gc_attempts r ! k) (gc_attempts r ! Suc k)
         \<and> disableStarttls (gc_zone r)"
proof -
  let ?t = "gc_attempts r"
  from assms(1) have ok: "traceOk e (gc_zone r) ?t"
    and l: "?t \<noteq> [] \<longrightarrow> \<not> tlsFailure e (a_options (last ?t))"
    by (simp_all add: settled_def)
  from assms(2) have ne: "?t \<noteq> []" by auto
  have "k \<noteq> length ?t - 1"
  proof
    assume "k = length ?t - 1"
    with ne have "?t ! k = last ?t" by (simp add: last_conv_nth)
    with l ne assms(3) show False by simp
  qed
  with assms(2) have sk: "Suc k < length ?t" by arith
  from ok have "successively (follows e) ?t" by (simp add: traceOk_def)
  from successively_nth [OF this sk] assms(3)
  have "retryOf (?t ! k) (?t ! Suc k)" by (simp add: follows_def)
  moreover from ok assms(2,3) have "disableStarttls (gc_zone r)"
    by (auto simp: traceOk_def)
  ultimately show ?thesis using sk by simp
qed

lemma sendNext_returns:
  assumes H: "\<forall>opts. ignoreTLS opts \<longrightarrow> \<not> tlsFailure e opts"
      and "\<not> closing s" "queue_get e = GetJob dl" "id' dl \<noteq> []"
  shows "\<exists>n z' s'. sendNext n e z s = Some (z', s')"
proof -
  from getConnection_terminates [OF H, of z "addSpamHeader dl"]
  obtain n r where "getConnection n e z (addSpamHeader dl) = Some r" by auto
  then have "sendNext n e z s =
      Some (gc_zone r, deliver e (gc_zone r) (addSpamHeader dl) (gc_outcome r)
                  (s\<lparr>issued := issued s @ [GET], emptyChecks := 0\<rparr>))"
    by (simp add: sendNext_job [OF assms(2-4)])
  then show ?thesis by (intro exI)
qed

lemma deliver_success:
  assumes "smtp (deliver e z d (Inr c) s) = smtp s @ [Send sa mh, Close]"
      and "send e c sa mh = SendOk info"
  shows "new_commands s (deliver e z d (Inr c) s) = [RELEASE (id' d) (seq d) (lock d)]"
proof -
  let ?mh = "build e (headers (prepared e z d c))"
  let ?args = "\<lparr>s_from = srsFrom e (prepared e z d c), s_to = to (prepared e z d c),
                   s_size = length (generateReceivedHeader e z d (o_name c)) + length ?mh
                            + bodySize (prepared e z d c)\<rparr>"
  have "srsFrom e (prepared e z d c) = srsFrom e d"
    by (rule srsFrom_cong) (simp add: prepared_fields)
  with assms(1) have "sa = ?args" "mh = ?mh"
    by (auto simp add: deliver_sent prepared_fields)
  with assms(2) have "send e c ?args ?mh = SendOk info" by simp
  then have "issued (deliver e z d (Inr c) s) = issued s @ [RELEASE (id' d) (seq d) (lock d)]"
    by (simp add: deliver_Inr Let_def releaseDelivery_def sendCommand_def emit_def
          prepared_fields split: option.splits)
  then show ?thesis by (rule new_commands_append)
qed

lemma handle_exact:
  "new_commands s (handleResponseError e d err s) =
     (if action (bounces_check e (response err)) \<noteq> ''reject'' \<or> 6 < deferredCount d
      then [DEFER (id' d) (seq d) (lock d) (min (5 ^ (deferredCount d + 1)) 1024 * 60 * 1000)]
      else RELEASE (id' d) (seq d) (lock d) #
           (if queue e (RELEASE (id' d) (seq d) (lock d)) = None \<and> bounces_enabled (conf e)
               \<and> from' d \<noteq> [] \<and> length (get ''Received'' (headers d)) \<le> 25
            then [BOUNCE (id' d) (from' d) (to d) (seq d) (headers d) (from' d)
                    (category (bounces_check e (response err)))
                    (formatSMTPResponse e (case response err of None \<Rightarrow> message err
                       | Some r \<Rightarrow> if r = [] then message err else r))]
            else []))"
  by (simp add: new_commands_append [OF handleResponseError_issued] getList_def not_less)

lemma deliver_failure:
  assumes "res = Inl err
     \<or> (\<exists>c sa mh. res = Inr c \<and> smtp (deliver e z d res s) = smtp s @ [Send sa mh, Close]
           \<and> send e c sa mh = SendError err)"
  shows "\<exists>s1. issued s1 = issued s
     \<and> deliver e z d res s =
         handleResponseError e
           (case res of Inl x \<Rightarrow> withReceived e z d (os_hostname e) | Inr c \<Rightarrow> prepared e z d c)
           err s1"
  using assms
proof (elim disjE exE conjE)
  assume "res = Inl err"
  then show ?thesis by (intro exI [of _ s]) (simp add: deliver_Inl)
next
  fix c sa mh
  assume r: "res = Inr c"
    and sm: "smtp (deliver e z d res s) = smtp s @ [Send sa mh, Close]"
    and f: "send e c sa mh = SendError err"
  let ?mh = "build e (headers (prepared e z d c))"
  let ?args = "\<lparr>s_from = srsFrom e (prepared e z d c), s_to = to (prepared e z d c),
                   s_size = length (generateReceivedHeader e z d (o_name c)) + length ?mh
                            + bodySize (prepared e z d c)\<rparr>"
  let ?s1 = "s\<lparr>smtp := smtp s @ [Send ?args ?mh, Close]\<rparr>"
  have "srsFrom e (prepared e z d c) = srsFrom e d"
    by (rule srsFrom_cong) (simp add: prepared_fields)
  with sm r have "sa = ?args" "mh = ?mh"
    by (auto simp add: deliver_sent prepared_fields)
  with f have "send e c ?args ?mh = SendError err" by simp
  then have "deliver e z d (Inr c) s = handleResponseError e (prepared e z d c) err ?s1"
    by (simp add: deliver_Inr Let_def)
  with r show ?thesis by (intro exI [of _ ?s1]) simp
qed

lemma deliver_outcomes:
  "(\<exists>c sa mh info. res = Inr c \<and> smtp (deliver e z d res s) = smtp s @ [Send sa mh, Close]
        \<and> send e c sa mh = SendOk info)
   \<or> (\<exists>err. res = Inl err
        \<or> (\<exists>c sa mh. res = Inr c \<and> smtp (deliver e z d res s) = smtp s @ [Send sa mh, Close]
              \<and> send e c sa mh = SendError err))"
proof (cases res)
  case (Inl err)
  then show ?thesis by blast
next
  case (Inr c)
  let ?mh = "build e (headers (prepared e z d c))"
  let ?args = "\<lparr>s_from = srsFrom e d, s_to = to d,
                   s_size = length (generateReceivedHeader e z d (o_name c)) + length ?mh
                            + bodySize d\<rparr>"
  have sm: "smtp (deliver e z d res s) = smtp s @ [Send ?args ?mh, Close]"
    unfolding Inr by (rule deliver_sent)
  show ?thesis
  proof (cases "send e c ?args ?mh")
    case (SendOk info)
    with Inr sm show ?thesis
      by (intro disjI1 exI [of _ c] exI [of _ ?args] exI [of _ ?mh] exI [of _ info] conjI)
  next
    case (SendError err)
    with Inr sm show ?thesis
      by (intro disjI2 exI [of _ c] exI [of _ ?args] exI [of _ ?mh] exI [of _ err] conjI)
  qed
qed

lemma deliver_failure_commands:
  assumes "res = Inl err
     \<or> (\<exists>c sa mh. res = Inr c \<and> smtp (deliver e z d res s) = smtp s @ [Send sa mh, Close]
           \<and> send e c sa mh = SendError err)"
  shows "new_commands s (deliver e z d res s) =
     (if action (bounces_check e (response err)) \<noteq> ''reject'' \<or> 6 < deferredCount d
      then [DEFER (id' d) (seq d) (lock d) (min (5 ^ (deferredCount d + 1)) 1024 * 60 * 1000)]
      else RELEASE (id' d) (seq d) (lock d) #
           (if queue e (RELEASE (id' d) (seq d) (lock d)) = None \<and> bounces_enabled (conf e)
               \<and> from' d \<noteq> [] \<and> length (get ''Received'' (headers d)) < 25
            then [BOUNCE (id' d) (from' d) (to d) (seq d)
                    (headers (case res of Inl x \<Rightarrow> withReceived e z d (os_hostname e)
                                | Inr c \<Rightarrow> prepared e z d c))
                    (from' d)
                    (category (bounces_check e (response err)))
                    (formatSMTPResponse e (case response err of None \<Rightarrow> message err
                       | Some r \<Rightarrow> if r = [] then message err else r))]
            else []))"
proof -
  let ?d = "case res of Inl x \<Rightarrow> withReceived e z d (os_hostname e) | Inr c \<Rightarrow> prepared e z d c"
  from deliver_failure [OF assms] obtain s1 where
    i: "issued s1 = issued s" and eq: "deliver e z d res s = handleResponseError e ?d err s1"
    by (elim exE conjE)
  have f: "id' ?d = id' d" "seq ?d = seq d" "lock ?d = lock d" "from' ?d = from' d"
    "to ?d = to d" "deferredCount ?d = deferredCount d"
    by (simp_all add: prepared_fields withReceived_eq deferredCount_def split: sum.splits)
  have c: "length (get ''Received'' (headers ?d)) = Suc (length (get ''Received'' (headers d)))"
    by (simp add: received_count_prepared received_count_withReceived split: sum.splits)
  have "new_commands s (deliver e z d res s) = new_commands s1 (handleResponseError e ?d err s1)"
    by (simp only: eq new_commands_cong [OF i, symmetric])
  also note handle_exact
  finally show ?thesis
    by (simp only: f c Suc_le_eq)
qed


lemma sendNext_exact:
  assumes "\<not> closing s" "queue_get e = GetJob dl" "id' dl \<noteq> []"
      and "sendNext n e z s = Some (z', s')"
  shows "\<exists>r :: gc_result. getConnection n e z (addSpamHeader dl) = Some r \<and> z' = gc_zone r
     \<and> ((\<exists>c sa mh info. gc_outcome r = Inr c \<and> smtp s' = smtp s @ [Send sa mh, Close]
            \<and> send e c sa mh = SendOk info
            \<and> new_commands s s' = [GET, RELEASE (id' dl) (seq dl) (lock dl)])
        \<or> (\<exists>err. (gc_outcome r = Inl err
                    \<or> (\<exists>c sa mh. gc_outcome r = Inr c
                          \<and> smtp s' = smtp s @ [Send sa mh, Close]
                          \<and> send e c sa mh = SendError err))
             \<and> new_commands s s' = GET #
                 (if action (bounces_check e (response err)) \<noteq> ''reject'' \<or> 6 < deferredCount dl
                  then [DEFER (id' dl) (seq dl) (lock dl)
                          (min (5 ^ (deferredCount dl + 1)) 1024 * 60 * 1000)]
                  else RELEASE (id' dl) (seq dl) (lock dl) #
                    (if queue e (RELEASE (id' dl) (seq dl) (lock dl)) = None
                        \<and> bounces_enabled (conf e) \<and> from' dl \<noteq> []
                        \<and> length (get ''Received'' (headers dl)) < 25
                     then [BOUNCE (id' dl) (from' dl) (to dl) (seq dl)
                             (headers (case gc_outcome r of
                                Inl x \<Rightarrow> withReceived e z' (addSpamHeader dl) (os_hostname e)
                              | Inr c \<Rightarrow> prepared e z' (addSpamHeader dl) c))
                             (from' dl)
                             (category (bounces_check e (response err)))
                             (formatSMTPResponse e (case response err of None \<Rightarrow> message err
                                | Some r \<Rightarrow> if r = [] then message err else r))]
                     else []))))"
proof -
  let ?s0 = "s\<lparr>issued := issued s @ [GET], emptyChecks := 0\<rparr>"
  let ?d = "addSpamHeader dl"
  from assms(4) sendNext_job [OF assms(1-3), of n z]
  obtain r :: gc_result where g: "getConnection n e z ?d = Some r" and z': "z' = gc_zone r"
    and s': "s' = deliver e z' ?d (gc_outcome r) ?s0"
    by (auto split: option.splits)
  have f: "id' ?d = id' dl" "seq ?d = seq dl" "lock ?d = lock dl" "from' ?d = from' dl"
    "to ?d = to dl" "deferredCount ?d = deferredCount dl"
    "get ''Received'' (headers ?d) = get ''Received'' (headers dl)"
    by (simp_all add: addSpamHeader_fields deferredCount_def received_count_spam)
  have sm: "smtp ?s0 = smtp s" by simp
  have nc: "new_commands s s' = GET # new_commands ?s0 s'"
    unfolding s' by (rule new_commands_GET)
  from deliver_outcomes [of "gc_outcome r" e z' ?d ?s0]
  show ?thesis
  proof (rule disjE)
    assume "\<exists>c sa mh info. gc_outcome r = Inr c
        \<and> smtp (deliver e z' ?d (gc_outcome r) ?s0) = smtp ?s0 @ [Send sa mh, Close]
        \<and> send e c sa mh = SendOk info"
    then obtain c sa mh info where o: "gc_outcome r = Inr c"
      and a: "smtp (deliver e z' ?d (gc_outcome r) ?s0) = smtp ?s0 @ [Send sa mh, Close]"
      and b: "send e c sa mh = SendOk info"
      by (elim exE conjE)
    from a have a': "smtp s' = smtp s @ [Send sa mh, Close]" by (simp only: s' sm)
    from a o have "smtp (deliver e z' ?d (Inr c) ?s0) = smtp ?s0 @ [Send sa mh, Close]"
      by simp
    from deliver_success [OF this b] o
    have "new_commands ?s0 s' = [RELEASE (id' dl) (seq dl) (lock dl)]"
      by (simp add: s' f)
    with nc have n: "new_commands s s' = [GET, RELEASE (id' dl) (seq dl) (lock dl)]" by simp
    have "\<exists>c sa mh info. gc_outcome r = Inr c \<and> smtp s' = smtp s @ [Send sa mh, Close]
            \<and> send e c sa mh = SendOk info
            \<and> new_commands s s' = [GET, RELEASE (id' dl) (seq dl) (lock dl)]"
      by (intro exI [of _ c] exI [of _ sa] exI [of _ mh] exI [of _ info] conjI)
         (rule o a' b n)+
    with g z' show ?thesis by (intro exI [of _ r] conjI disjI1)
  next
    assume "\<exists>err. gc_outcome r = Inl err
       \<or> (\<exists>c sa mh. gc_outcome r = Inr c
            \<and> smtp (deliver e z' ?d (gc_outcome r) ?s0) = smtp ?s0 @ [Send sa mh, Close]
            \<and> send e c sa mh = SendError err)"
    then obtain err where o: "gc_outcome r = Inl err
       \<or> (\<exists>c sa mh. gc_outcome r = Inr c
            \<and> smtp (deliver e z' ?d (gc_outcome r) ?s0) = smtp ?s0 @ [Send sa mh, Close]
            \<and> send e c sa mh = SendError err)"
      by (rule exE)
    from deliver_failure_commands [OF o] nc
    have n: "new_commands s s' = GET #
                 (if action (bounces_check e (response err)) \<noteq> ''reject'' \<or> 6 < deferredCount dl
                  then [DEFER (id' dl) (seq dl) (lock dl)
                          (min (5 ^ (deferredCount dl + 1)) 1024 * 60 * 1000)]
                  else RELEASE (id' dl) (seq dl) (lock dl) #
                    (if queue e (RELEASE (id' dl) (seq dl) (lock dl)) = None
                        \<and> bounces_enabled (conf e) \<and> from' dl \<noteq> []
                        \<and> length (get ''Received'' (headers dl)) < 25
                     then [BOUNCE (id' dl) (from' dl) (to dl) (seq dl)
                             (headers (case gc_outcome r of
                                Inl x \<Rightarrow> withReceived e z' (addSpamHeader dl) (os_hostname e)
                              | Inr c \<Rightarrow> prepared e z' (addSpamHeader dl) c))
                             (from' dl)
                             (category (bounces_check e (response err)))
                             (formatSMTPResponse e (case response err of None \<Rightarrow> message err
                                | Some r \<Rightarrow> if r = [] then message err else r))]
                     else []))"
      by (simp only: s' [symmetric] f)
    from o have o': "gc_outcome r = Inl err
                    \<or> (\<exists>c sa mh. gc_outcome r = Inr c
                          \<and> smtp s' = smtp s @ [Send sa mh, Close]
                          \<and> send e c sa mh = SendError err)"
      by (simp only: s' [symmetric] sm)
    from o' n have x: "\<exists>err. (gc_outcome r = Inl err
                    \<or> (\<exists>c sa mh. gc_outcome r = Inr c
                          \<and> smtp s' = smtp s @ [Send sa mh, Close]
                          \<and> send e c sa mh = SendError err))
             \<and> new_commands s s' = GET #
                 (if action (bounces_check e (response err)) \<noteq> ''reject'' \<or> 6 < deferredCount dl
                  then [DEFER (id' dl) (seq dl) (lock dl)
                          (min (5 ^ (deferredCount dl + 1)) 1024 * 60 * 1000)]
                  else RELEASE (id' dl) (seq dl) (lock dl) #
                    (if queue e (RELEASE (id' dl) (seq dl) (lock dl)) = None
                        \<and> bounces_enabled (conf e) \<and> from' dl \<noteq> []
                        \<and> length (get ''Received'' (headers dl)) < 25
                     then [BOUNCE (id' dl) (from' dl) (to dl) (seq dl)
                             (headers (case gc_outcome r of
                                Inl x \<Rightarrow> withReceived e z' (addSpamHeader dl) (os_hostname e)
                              | Inr c \<Rightarrow> prepared e z' (addSpamHeader dl) c))
                             (from' dl)
                             (category (bounces_check e (response err)))
                             (formatSMTPResponse e (case response err of None \<Rightarrow> message err
                                | Some r \<Rightarrow> if r = [] then message err else r))]
                     else []))"
      by (intro exI [of _ err] conjI)
    show ?thesis
      by (rule exI [of _ r], rule conjI [OF g], rule conjI [OF z'], rule disjI2, rule x)
  qed
qed

lemma sendNext_bounce_shape:
  assumes "\<not> closing s" "queue_get e = GetJob dl" "id' dl \<noteq> []"
      and "sendNext n e z s = Some (z', s')"
  shows "\<exists>c bs. new_commands s s' = GET # c # bs
      \<and> (c = RELEASE (id' dl) (seq dl) (lock dl)
           \<or> (\<exists>ttl. c = DEFER (id' dl) (seq dl) (lock dl) ttl))
      \<and> (bs = [] \<or> (c = RELEASE (id' dl) (seq dl) (lock dl)
            \<and> queue e (RELEASE (id' dl) (seq dl) (lock dl)) = None
            \<and> bounces_enabled (conf e) \<and> from' dl \<noteq> []
            \<and> length (get ''Received'' (headers dl)) < 25
            \<and> (\<exists>h cat resp.
                  bs = [BOUNCE (id' dl) (from' dl) (to dl) (seq dl) h (from' dl) cat resp])))"
proof -
  from sendNext_exact [OF assms] obtain r :: gc_result where
    "(\<exists>c sa mh info. gc_outcome r = Inr c \<and> smtp s' = smtp s @ [Send sa mh, Close]
            \<and> send e c sa mh = SendOk info
            \<and> new_commands s s' = [GET, RELEASE (id' dl) (seq dl) (lock dl)])
        \<or> (\<exists>err. (gc_outcome r = Inl err
                    \<or> (\<exists>c sa mh. gc_outcome r = Inr c
                          \<and> smtp s' = smtp s @ [Send sa mh, Close]
                          \<and> send e c sa mh = SendError err))
             \<and> new_commands s s' = GET #
                 (if action (bounces_check e (response err)) \<noteq> ''reject'' \<or> 6 < deferredCount dl
                  then [DEFER (id' dl) (seq dl) (lock dl)
                          (min (5 ^ (deferredCount dl + 1)) 1024 * 60 * 1000)]
                  else RELEASE (id' dl) (seq dl) (lock dl) #
                    (if queue e (RELEASE (id' dl) (seq dl) (lock dl)) = None
                        \<and> bounces_enabled (conf e) \<and> from' dl \<noteq> []
                        \<and> length (get ''Received'' (headers dl)) < 25
                     then [BOUNCE (id' dl) (from' dl) (to dl) (seq dl)
                             (headers (case gc_outcome r of
                                Inl x \<Rightarrow> withReceived e z' (addSpamHeader dl) (os_hostname e)
                              | Inr c \<Rightarrow> prepared e z' (addSpamHeader dl) c))
                             (from' dl)
                             (category (bounces_check e (response err)))
                             (formatSMTPResponse e (case response err of None \<Rightarrow> message err
                                | Some r \<Rightarrow> if r = [] then message err else r))]
                     else [])))"
    by (elim exE conjE)
  then show ?thesis
  proof (rule disjE)
    assume "\<exists>c sa mh info. gc_outcome r = Inr c \<and> smtp s' = smtp s @ [Send sa mh, Close]
            \<and> send e c sa mh = SendOk info
            \<and> new_commands s s' = [GET, RELEASE (id' dl) (seq dl) (lock dl)]"
    then have "new_commands s s' = [GET, RELEASE (id' dl) (seq dl) (lock dl)]"
      by (elim exE conjE)
    then show ?thesis by simp
  next
    assume "\<exists>err. (gc_outcome r = Inl err
                    \<or> (\<exists>c sa mh. gc_outcome r = Inr c
                          \<and> smtp s' = smtp s @ [Send sa mh, Close]
                          \<and> send e c sa mh = SendError err))
             \<and> new_commands s s' = GET #
                 (if action (bounces_check e (response err)) \<noteq> ''reject'' \<or> 6 < deferredCount dl
                  then [DEFER (id' dl) (seq dl) (lock dl)
                          (min (5 ^ (deferredCount dl + 1)) 1024 * 60 * 1000)]
                  else RELEASE (id' dl) (seq dl) (lock dl) #
                    (if queue e (RELEASE (id' dl) (seq dl) (lock dl)) = None
                        \<and> bounces_enabled (conf e) \<and> from' dl \<noteq> []
                        \<and> length (get ''Received'' (headers dl)) < 25
                     then [BOUNCE (id' dl) (from' dl) (to dl) (seq dl)
                             (headers (case gc_outcome r of
                                Inl x \<Rightarrow> withReceived e z' (addSpamHeader dl) (os_hostname e)
                              | Inr c \<Rightarrow> prepared e z' (addSpamHeader dl) c))
                             (from' dl)
                             (category (bounces_check e (response err)))
                             (formatSMTPResponse e (case response err of None \<Rightarrow> message err
                                | Some r \<Rightarrow> if r = [] then message err else r))]
                     else []))"
    then obtain err :: error and h cat resp where
      n: "new_commands s s' = GET #
                 (if action (bounces_check e (response err)) \<noteq> ''reject'' \<or> 6 < deferredCount dl
                  then [DEFER (id' dl) (seq dl) (lock dl)
                          (min (5 ^ (deferredCount dl + 1)) 1024 * 60 * 1000)]
                  else RELEASE (id' dl) (seq dl) (lock dl) #
                    (if queue e (RELEASE (id' dl) (seq dl) (lock dl)) = None
                        \<and> bounces_enabled (conf e) \<and> from' dl \<noteq> []
                        \<and> length (get ''Received'' (headers dl)) < 25
                     then [BOUNCE (id' dl) (from' dl) (to dl) (seq dl) h (from' dl) cat resp]
                     else []))"
      by (elim exE conjE)
    show ?thesis by (simp add: n)
  qed
qed

lemma sendNext_outcomes:
  assumes "\<not> closing s" "queue_get e = GetJob dl" "id' dl \<noteq> []"
      and "sendNext n e z s = Some (z', s')"
  shows "(\<exists>r :: gc_result. getConnection n e z (addSpamHeader dl) = Some r \<and> z' = gc_zone r
              \<and> ((\<exists>c sa mh info. gc_outcome r = Inr c
                     \<and> smtp s' = smtp s @ [Send sa mh, Close]
                     \<and> send e c sa mh = SendOk info
                     \<and> new_commands s s' = [GET, RELEASE (id' dl) (seq dl) (lock dl)])
                 \<or> (\<exists>err. (gc_outcome r = Inl err
                             \<or> (\<exists>c sa mh. gc_outcome r = Inr c
                                   \<and> smtp s' = smtp s @ [Send sa mh, Close]
                                   \<and> send e c sa mh = SendError err))
                      \<and> (action (bounces_check e (response err)) \<noteq> ''reject'' \<longrightarrow>
                           new_commands s s' =
                             [GET, DEFER (id' dl) (seq dl) (lock dl)
                                     (min (5 ^ (deferredCount dl + 1)) 1024 * 60 * 1000)])
                      \<and> (action (bounces_check e (response err)) = ''reject'' \<longrightarrow>
                           deferredCount dl \<le> 6 \<longrightarrow>
                           new_commands s s' =
                             GET # RELEASE (id' dl) (seq dl) (lock dl) #
                             (if queue e (RELEASE (id' dl) (seq dl) (lock dl)) = None
                                 \<and> bounces_enabled (conf e) \<and> from' dl \<noteq> []
                                 \<and> length (get ''Received'' (headers dl)) < 25
                              then [BOUNCE (id' dl) (from' dl) (to dl) (seq dl)
                                      (headers (case gc_outcome r of
                                         Inl x \<Rightarrow> withReceived e z' (addSpamHeader dl)
                                                    (os_hostname e)
                                       | Inr c \<Rightarrow> prepared e z' (addSpamHeader dl) c))
                                      (from' dl)
                                      (category (bounces_check e (response err)))
                                      (formatSMTPResponse e
                                         (case response err of None \<Rightarrow> message err
                                          | Some r \<Rightarrow> if r = [] then message err else r))]
                              else [])))))"
proof -
  from sendNext_exact [OF assms] obtain r :: gc_result where
    g: "getConnection n e z (addSpamHeader dl) = Some r" and z': "z' = gc_zone r"
    and d: "(\<exists>c sa mh info. gc_outcome r = Inr c \<and> smtp s' = smtp s @ [Send sa mh, Close]
            \<and> send e c sa mh = SendOk info
            \<and> new_commands s s' = [GET, RELEASE (id' dl) (seq dl) (lock dl)])
        \<or> (\<exists>err. (gc_outcome r = Inl err
                    \<or> (\<exists>c sa mh. gc_outcome r = Inr c
                          \<and> smtp s' = smtp s @ [Send sa mh, Close]
                          \<and> send e c sa mh = SendError err))
             \<and> new_commands s s' = GET #
                 (if action (bounces_check e (response err)) \<noteq> ''reject'' \<or> 6 < deferredCount dl
                  then [DEFER (id' dl) (seq dl) (lock dl)
                          (min (5 ^ (deferredCount dl + 1)) 1024 * 60 * 1000)]
                  else RELEASE (id' dl) (seq dl) (lock dl) #
                    (if queue e (RELEASE (id' dl) (seq dl) (lock dl)) = None
                        \<and> bounces_enabled (conf e) \<and> from' dl \<noteq> []
                        \<and> length (get ''Received'' (headers dl)) < 25
                     then [BOUNCE (id' dl) (from' dl) (to dl) (seq dl)
                             (headers (case gc_outcome r of
                                Inl x \<Rightarrow> withReceived e z' (addSpamHeader dl) (os_hostname e)
                              | Inr c \<Rightarrow> prepared e z' (addSpamHeader dl) c))
                             (from' dl)
                             (category (bounces_check e (response err)))
                             (formatSMTPResponse e (case response err of None \<Rightarrow> message err
                                | Some r \<Rightarrow> if r = [] then message err else r))]
                     else [])))"
    by (elim exE conjE)
  let ?ok = "\<exists>c sa mh info. gc_outcome r = Inr c
                     \<and> smtp s' = smtp s @ [Send sa mh, Close]
                     \<and> send e c sa mh = SendOk info
                     \<and> new_commands s s' = [GET, RELEASE (id' dl) (seq dl) (lock dl)]"
  let ?ko = "\<exists>err. (gc_outcome r = Inl err
                             \<or> (\<exists>c sa mh. gc_outcome r = Inr c
                                   \<and> smtp s' = smtp s @ [Send sa mh, Close]
                                   \<and> send e c sa mh = SendError err))
                      \<and> (action (bounces_check e (response err)) \<noteq> ''reject'' \<longrightarrow>
                           new_commands s s' =
                             [GET, DEFER (id' dl) (seq dl) (lock dl)
                                     (min (5 ^ (deferredCount dl + 1)) 1024 * 60 * 1000)])
                      \<and> (action (bounces_check e (response err)) = ''reject'' \<longrightarrow>
                           deferredCount dl \<le> 6 \<longrightarrow>
                           new_commands s s' =
                             GET # RELEASE (id' dl) (seq dl) (lock dl) #
                             (if queue e (RELEASE (id' dl) (seq dl) (lock dl)) = None
                                 \<and> bounces_enabled (conf e) \<and> from' dl \<noteq> []
                                 \<and> length (get ''Received'' (headers dl)) < 25
                              then [BOUNCE (id' dl) (from' dl) (to dl) (seq dl)
                                      (headers (case gc_outcome r of
                                         Inl x \<Rightarrow> withReceived e z' (addSpamHeader dl)
                                                    (os_hostname e)
                                       | Inr c \<Rightarrow> prepared e z' (addSpamHeader dl) c))
                                      (from' dl)
                                      (category (bounces_check e (response err)))
                                      (formatSMTPResponse e
                                         (case response err of None \<Rightarrow> message err
                                          | Some r \<Rightarrow> if r = [] then message err else r))]
                              else []))"
  from d have "?ok \<or> ?ko"
  proof (rule disjE)
    assume ?ok
    then show ?thesis by (rule disjI1)
  next
    assume "\<exists>err. (gc_outcome r = Inl err
                    \<or> (\<exists>c sa mh. gc_outcome r = Inr c
                          \<and> smtp s' = smtp s @ [Send sa mh, Close]
                          \<and> send e c sa mh = SendError err))
             \<and> new_commands s s' = GET #
                 (if action (bounces_check e (response err)) \<noteq> ''reject'' \<or> 6 < deferredCount dl
                  then [DEFER (id' dl) (seq dl) (lock dl)
                          (min (5 ^ (deferredCount dl + 1)) 1024 * 60 * 1000)]
                  else RELEASE (id' dl) (seq dl) (lock dl) #
                    (if queue e (RELEASE (id' dl) (seq dl) (lock dl)) = None
                        \<and> bounces_enabled (conf e) \<and> from' dl \<noteq> []
                        \<and> length (get ''Received'' (headers dl)) < 25
                     then [BOUNCE (id' dl) (from' dl) (to dl) (seq dl)
                             (headers (case gc_outcome r of
                                Inl x \<Rightarrow> withReceived e z' (addSpamHeader dl) (os_hostname e)
                              | Inr c \<Rightarrow> prepared e z' (addSpamHeader dl) c))
                             (from' dl)
                             (category (bounces_check e (response err)))
                             (formatSMTPResponse e (case response err of None \<Rightarrow> message err
                                | Some r \<Rightarrow> if r = [] then message err else r))]
                     else []))"
    then obtain err :: error where
      o: "gc_outcome r = Inl err
                    \<or> (\<exists>c sa mh. gc_outcome r = Inr c
                          \<and> smtp s' = smtp s @ [Send sa mh, Close]
                          \<and> send e c sa mh = SendError err)"
      and n: "new_commands s s' = GET #
                 (if action (bounces_check e (response err)) \<noteq> ''reject'' \<or> 6 < deferredCount dl
                  then [DEFER (id' dl) (seq dl) (lock dl)
                          (min (5 ^ (deferredCount dl + 1)) 1024 * 60 * 1000)]
                  else RELEASE (id' dl) (seq dl) (lock dl) #
                    (if queue e (RELEASE (id' dl) (seq dl) (lock dl)) = None
                        \<and> bounces_enabled (conf e) \<and> from' dl \<noteq> []
                        \<and> length (get ''Received'' (headers dl)) < 25
                     then [BOUNCE (id' dl) (from' dl) (to dl) (seq dl)
                             (headers (case gc_outcome r of
                                Inl x \<Rightarrow> withReceived e z' (addSpamHeader dl) (os_hostname e)
                              | Inr c \<Rightarrow> prepared e z' (addSpamHeader dl) c))
                             (from' dl)
                             (category (bounces_check e (response err)))
                             (formatSMTPResponse e (case response err of None \<Rightarrow> message err
                                | Some r \<Rightarrow> if r = [] then message err else r))]
                     else []))"
      by (elim exE conjE)
    have a: "action (bounces_check e (response err)) \<noteq> ''reject'' \<longrightarrow>
                           new_commands s s' =
                             [GET, DEFER (id' dl) (seq dl) (lock dl)
                                     (min (5 ^ (deferredCount dl + 1)) 1024 * 60 * 1000)]"
      by (simp add: n)
    have b: "action (bounces_check e (response err)) = ''reject'' \<longrightarrow>
                           deferredCount dl \<le> 6 \<longrightarrow>
                           new_commands s s' =
                             GET # RELEASE (id' dl) (seq dl) (lock dl) #
                             (if queue e (RELEASE (id' dl) (seq dl) (lock dl)) = None
                                 \<and> bounces_enabled (conf e) \<and> from' dl \<noteq> []
                                 \<and> length (get ''Received'' (headers dl)) < 25
                              then [BOUNCE (id' dl) (from' dl) (to dl) (seq dl)
                                      (headers (case gc_outcome r of
                                         Inl x \<Rightarrow> withReceived e z' (addSpamHeader dl)
                                                    (os_hostname e)
                                       | Inr c \<Rightarrow> prepared e z' (addSpamHeader dl) c))
                                      (from' dl)
                                      (category (bounces_check e (response err)))
                                      (formatSMTPResponse e
                                         (case response err of None \<Rightarrow> message err
                                          | Some r \<Rightarrow> if r = [] then message err else r))]
                              else [])"
      by (simp add: n)
    have ?ko by (rule exI [of _ err], rule conjI [OF o], rule conjI [OF a], rule b)
    then show ?thesis by (rule disjI2)
  qed
  then show ?thesis
    by (intro exI [of _ r] conjI g z')
qed

section \<open>The claims\<close>

subsection \<open>Acknowledging a delivery\<close>

text \<open>
  C1, as amended. When \<open>GET\<close> returns a job (and a connection opened without STARTTLS
  does not fail with \<open>ETLS\<close>, so that \<open>getConnection\<close> calls back), the iteration
  ends, and after \<open>GET\<close> it issues exactly one of \<open>RELEASE\<close> and \<open>DEFER\<close>, with the
  \<open>id\<close>, \<open>seq\<close> and lock of the delivery. A successful \<open>send\<close> leads to \<open>RELEASE\<close>; a
  failure, of the connection or of \<open>send\<close>, leads to \<open>DEFER\<close> when the classifier does
  not reject, and to \<open>RELEASE\<close> when it rejects a delivery deferred at most six times.
  \<open>BOUNCE\<close> is not an alternative to the two: it carries no lock. It is issued once,
  after the \<open>RELEASE\<close> of a rejected delivery, exactly when the queue has accepted that
  \<open>RELEASE\<close>, internal bounces are enabled, the sender is not empty and the hop limit
  is not exceeded: the header block, with the \<open>Received\<close> line that the worker has
  added, has at most 25 \<open>Received\<close> lines, so the job came with fewer than 25. The
  last part says that an iteration ends in one of three outcomes, a successful \<open>send\<close>,
  a failed connection or a failed \<open>send\<close>, and gives the commands of each.
\<close>

theorem one_release_or_defer:
  assumes H: "\<forall>opts. ignoreTLS opts \<longrightarrow> \<not> tlsFailure e opts"
      and "\<not> closing s" "queue_get e = GetJob dl" "id' dl \<noteq> []"
  shows "(\<exists>n z' s'. sendNext n e z s = Some (z', s'))
     \<and> (\<forall>n z' s'. sendNext n e z s = Some (z', s') \<longrightarrow>
           (\<exists>c bs. new_commands s s' = GET # c # bs
              \<and> (c = RELEASE (id' dl) (seq dl) (lock dl)
                   \<or> (\<exists>ttl. c = DEFER (id' dl) (seq dl) (lock dl) ttl))
              \<and> (bs = [] \<or> (c = RELEASE (id' dl) (seq dl) (lock dl)
                    \<and> queue e (RELEASE (id' dl) (seq dl) (lock dl)) = None
                    \<and> bounces_enabled (conf e) \<and> from' dl \<noteq> []
                    \<and> length (get ''Received'' (headers dl)) < 25
                    \<and> (\<exists>h cat resp.
                         bs = [BOUNCE (id' dl) (from' dl) (to dl) (seq dl) h (from' dl)
                                 cat resp])))))
     \<and> (\<forall>z1 d1 c1 s1 sa mh info.
           smtp (deliver e z1 d1 (Inr c1) s1) = smtp s1 @ [Send sa mh, Close] \<longrightarrow>
           send e c1 sa mh = SendOk info \<longrightarrow>
           new_commands s1 (deliver e z1 d1 (Inr c1) s1) = [RELEASE (id' d1) (seq d1) (lock d1)])
     \<and> (\<forall>d1 err s1.
           action (bounces_check e (response err)) \<noteq> ''reject'' \<longrightarrow>
           new_commands s1 (handleResponseError e d1 err s1)
             = [DEFER (id' d1) (seq d1) (lock d1)
                  (min (5 ^ (deferredCount d1 + 1)) 1024 * 60 * 1000)])
     \<and> (\<forall>d1 err s1.
           action (bounces_check e (response err)) = ''reject'' \<longrightarrow> deferredCount d1 \<le> 6 \<longrightarrow>
           new_commands s1 (handleResponseError e d1 err s1)
             = RELEASE (id' d1) (seq d1) (lock d1) #
               (if queue e (RELEASE (id' d1) (seq d1) (lock d1)) = None
                   \<and> bounces_enabled (conf e) \<and> from' d1 \<noteq> []
                   \<and> length (get ''Received'' (headers d1)) \<le> 25
                then [BOUNCE (id' d1) (from' d1) (to d1) (seq d1) (headers d1) (from' d1)
                        (category (bounces_check e (response err)))
                        (formatSMTPResponse e (case response err of None \<Rightarrow> message err
                           | Some r \<Rightarrow> if r = [] then message err else r))]
                else []))
     \<and> (\<forall>n z' s'. sendNext n e z s = Some (z', s') \<longrightarrow>
           (\<exists>r :: gc_result. getConnection n e z (addSpamHeader dl) = Some r \<and> z' = gc_zone r
              \<and> ((\<exists>c sa mh info. gc_outcome r = Inr c
                     \<and> smtp s' = smtp s @ [Send sa mh, Close]
                     \<and> send e c sa mh = SendOk info
                     \<and> new_commands s s' = [GET, RELEASE (id' dl) (seq dl) (lock dl)])
                 \<or> (\<exists>err. (gc_outcome r = Inl err
                             \<or> (\<exists>c sa mh. gc_outcome r = Inr c
                                   \<and> smtp s' = smtp s @ [Send sa mh, Close]
                                   \<and> send e c sa mh = SendError err))
                      \<and> (action (bounces_check e (response err)) \<noteq> ''reject'' \<longrightarrow>
                           new_commands s s' =
                             [GET, DEFER (id' dl) (seq dl) (lock dl)
                                     (min (5 ^ (deferredCount dl + 1)) 1024 * 60 * 1000)])
                      \<and> (action (bounces_check e (response err)) = ''reject'' \<longrightarrow>
                           deferredCount dl \<le> 6 \<longrightarrow>
                           new_commands s s' =
                             GET # RELEASE (id' dl) (seq dl) (lock dl) #
                             (if queue e (RELEASE (id' dl) (seq dl) (lock dl)) = None
                                 \<and> bounces_enabled (conf e) \<and> from' dl \<noteq> []
                                 \<and> length (get ''Received'' (headers dl)) < 25
                              then [BOUNCE (id' dl) (from' dl) (to dl) (seq dl)
                                      (headers (case gc_outcome r of
                                         Inl x \<Rightarrow> withReceived e z' (addSpamHeader dl)
                                                    (os_hostname e)
                                       | Inr c \<Rightarrow> prepared e z' (addSpamHeader dl) c))
                                      (from' dl)
                                      (category (bounces_check e (response err)))
                                      (formatSMTPResponse e
                                         (case response err of None \<Rightarrow> message err
                                          | Some r \<Rightarrow> if r = [] then message err else r))]
                              else []))))))"
proof (intro conjI allI impI)
  show "\<exists>n z' s'. sendNext n e z s = Some (z', s')"
    by (rule sendNext_returns [OF assms])
next
  fix n z' s'
  assume "sendNext n e z s = Some (z', s')"
  from sendNext_bounce_shape [OF assms(2-4) this]
  show "\<exists>c bs. new_commands s s' = GET # c # bs
              \<and> (c = RELEASE (id' dl) (seq dl) (lock dl)
                   \<or> (\<exists>ttl. c = DEFER (id' dl) (seq dl) (lock dl) ttl))
              \<and> (bs = [] \<or> (c = RELEASE (id' dl) (seq dl) (lock dl)
                    \<and> queue e (RELEASE (id' dl) (seq dl) (lock dl)) = None
                    \<and> bounces_enabled (conf e) \<and> from' dl \<noteq> []
                    \<and> length (get ''Received'' (headers dl)) < 25
                    \<and> (\<exists>h cat resp.
                         bs = [BOUNCE (id' dl) (from' dl) (to dl) (seq dl) h (from' dl)
                                 cat resp])))" .
next
  fix z1 d1 c1 s1 sa mh info
  assume "smtp (deliver e z1 d1 (Inr c1) s1) = smtp s1 @ [Send sa mh, Close]"
    "send e c1 sa mh = SendOk info"
  then show "new_commands s1 (deliver e z1 d1 (Inr c1) s1)
      = [RELEASE (id' d1) (seq d1) (lock d1)]"
    by (rule deliver_success)
next
  fix d1 and err :: error and s1
  assume "action (bounces_check e (response err)) \<noteq> ''reject''"
  then show "new_commands s1 (handleResponseError e d1 err s1)
             = [DEFER (id' d1) (seq d1) (lock d1)
                  (min (5 ^ (deferredCount d1 + 1)) 1024 * 60 * 1000)]"
    by (simp add: handle_exact)
next
  fix d1 and err :: error and s1
  assume "action (bounces_check e (response err)) = ''reject''" "deferredCount d1 \<le> 6"
  then show "new_commands s1 (handleResponseError e d1 err s1)
             = RELEASE (id' d1) (seq d1) (lock d1) #
               (if queue e (RELEASE (id' d1) (seq d1) (lock d1)) = None
                   \<and> bounces_enabled (conf e) \<and> from' d1 \<noteq> []
                   \<and> length (get ''Received'' (headers d1)) \<le> 25
                then [BOUNCE (id' d1) (from' d1) (to d1) (seq d1) (headers d1) (from' d1)
                        (category (bounces_check e (response err)))
                        (formatSMTPResponse e (case response err of None \<Rightarrow> message err
                           | Some r \<Rightarrow> if r = [] then message err else r))]
                else [])"
    by (simp add: handle_exact)
next
  fix n z' s'
  assume "sendNext n e z s = Some (z', s')"
  from sendNext_outcomes [OF assms(2-4) this]
  show "(\<exists>r :: gc_result. getConnection n e z (addSpamHeader dl) = Some r \<and> z' = gc_zone r
              \<and> ((\<exists>c sa mh info. gc_outcome r = Inr c
                     \<and> smtp s' = smtp s @ [Send sa mh, Close]
                     \<and> send e c sa mh = SendOk info
                     \<and> new_commands s s' = [GET, RELEASE (id' dl) (seq dl) (lock dl)])
                 \<or> (\<exists>err. (gc_outcome r = Inl err
                             \<or> (\<exists>c sa mh. gc_outcome r = Inr c
                                   \<and> smtp s' = smtp s @ [Send sa mh, Close]
                                   \<and> send e c sa mh = SendError err))
                      \<and> (action (bounces_check e (response err)) \<noteq> ''reject'' \<longrightarrow>
                           new_commands s s' =
                             [GET, DEFER (id' dl) (seq dl) (lock dl)
                                     (min (5 ^ (deferredCount dl + 1)) 1024 * 60 * 1000)])
                      \<and> (action (bounces_check e (response err)) = ''reject'' \<longrightarrow>
                           deferredCount dl \<le> 6 \<longrightarrow>
                           new_commands s s' =
                             GET # RELEASE (id' dl) (seq dl) (lock dl) #
                             (if queue e (RELEASE (id' dl) (seq dl) (lock dl)) = None
                                 \<and> bounces_enabled (conf e) \<and> from' dl \<noteq> []
                                 \<and> length (get ''Received'' (headers dl)) < 25
                              then [BOUNCE (id' dl) (from' dl) (to dl) (seq dl)
                                      (headers (case gc_outcome r of
                                         Inl x \<Rightarrow> withReceived e z' (addSpamHeader dl)
                                                    (os_hostname e)
                                       | Inr c \<Rightarrow> prepared e z' (addSpamHeader dl) c))
                                      (from' dl)
                                      (category (bounces_check e (response err)))
                                      (formatSMTPResponse e
                                         (case response err of None \<Rightarrow> message err
                                          | Some r \<Rightarrow> if r = [] then message err else r))]
                              else [])))))" .
qed

text \<open>
  The claim as stated counts \<open>BOUNCE\<close> among the terminal commands of which exactly one
  is issued. A rejected delivery with internal bounces enabled gets two of them.
\<close>

theorem one_release_or_defer_counterexample:
  "map_option (issued \<circ> snd)
     (sendNext 5 (ex_env (GetJob (ex_delivery []))
                    (SendError (ex_error [] ''550 5.1.1 no such user''))) ex_zone ex_sender)
     = Some [GET, RELEASE ''m1'' ''1'' ''L1'',
             BOUNCE ''m1'' ''a@X.example'' [''b@y.test''] ''1''
               [\<lparr>key = ''dkim-signature'', line = ''DKIM-Signature: k1''\<rparr>,
                \<lparr>key = ''received'', line = ''Received: from out.test''\<rparr>,
                \<lparr>key = ''from'', line = ''From: a@X.example''\<rparr>]
               ''a@X.example'' ''recipient'' ''550 5.1.1 no such user'']
   \<and> map_option (length \<circ> filter isTerminal \<circ> issued \<circ> snd)
     (sendNext 5 (ex_env (GetJob (ex_delivery []))
                    (SendError (ex_error [] ''550 5.1.1 no such user''))) ex_zone ex_sender)
     = Some 2
   \<and> issued ex_sender = []"
  by (simp add: ex_sendNext ex_deliver_reject get_def) (simp add: ex_sender_def)

theorem one_release_or_defer_witness:
  "\<not> closing ex_sender
   \<and> queue_get (ex_env (GetJob (ex_delivery [])) (SendOk ''250 2.0.0 OK queued''))
        = GetJob (ex_delivery [])
   \<and> id' (ex_delivery []) \<noteq> []
   \<and> (\<exists>z' s'. sendNext 5 (ex_env (GetJob (ex_delivery [])) (SendOk ''250 2.0.0 OK queued''))
                  ex_zone ex_sender = Some (z', s')
         \<and> new_commands ex_sender s' = [GET, RELEASE ''m1'' ''1'' ''L1''])
   \<and> bounces_enabled (conf (ex_env (GetJob (ex_delivery []))
         (SendError (ex_error [] ''550 5.1.1 no such user''))))
   \<and> new_commands ex_sender
        (handleResponseError
           (ex_env (GetJob (ex_delivery [])) (SendError (ex_error [] ''550 5.1.1 no such user'')))
           (ex_delivery []) (ex_error [] ''550 5.1.1 no such user'') ex_sender)
       = [RELEASE ''m1'' ''1'' ''L1'',
          BOUNCE ''m1'' ''a@X.example'' [''b@y.test''] ''1''
            [\<lparr>key = ''from'', line = ''From: a@X.example''\<rparr>]
            ''a@X.example'' ''recipient'' ''550 5.1.1 no such user'']
   \<and> new_commands ex_sender
        (handleResponseError
           (ex_env (GetJob (ex_delivery [])) (SendError (ex_error [] ''550 5.1.1 no such user'')))
           ((ex_delivery [])\<lparr>from' := []\<rparr>) (ex_error [] ''550 5.1.1 no such user'') ex_sender)
       = [RELEASE ''m1'' ''1'' ''L1'']
   \<and> \<not> bounces_enabled (conf ((ex_env (GetJob (ex_delivery []))
           (SendError (ex_error [] ''550 5.1.1 no such user'')))
           \<lparr>conf := ex_config\<lparr>bounces_enabled := False\<rparr>\<rparr>))
   \<and> new_commands ex_sender
        (handleResponseError
           ((ex_env (GetJob (ex_delivery [])) (SendError (ex_error [] ''550 5.1.1 no such user'')))
              \<lparr>conf := ex_config\<lparr>bounces_enabled := False\<rparr>\<rparr>)
           (ex_delivery []) (ex_error [] ''550 5.1.1 no such user'') ex_sender)
       = [RELEASE ''m1'' ''1'' ''L1'']"
proof -
  let ?e = "ex_env (GetJob (ex_delivery [])) (SendOk ''250 2.0.0 OK queued'')"
  let ?z = "ex_zone\<lparr>disableStarttls := True\<rparr>"
  let ?s0 = "ex_sender\<lparr>issued := issued ex_sender @ [GET], emptyChecks := 0\<rparr>"
  let ?s' = "deliver ?e ?z (addSpamHeader (ex_delivery [])) (Inr ex_options) ?s0"
  let ?err = "ex_error [] ''550 5.1.1 no such user''"
  let ?e2 = "ex_env (GetJob (ex_delivery [])) (SendError ?err)"
  let ?e3 = "?e2\<lparr>conf := ex_config\<lparr>bounces_enabled := False\<rparr>\<rparr>"
  let ?d0 = "(ex_delivery [])\<lparr>from' := []\<rparr>"
  have H: "\<forall>opts. ignoreTLS opts \<longrightarrow> \<not> tlsFailure ?e opts"
    by (simp add: tlsFailure_def ex_env_def)
  have a: "\<not> closing ex_sender" by (simp add: ex_sender_def)
  have b: "queue_get ?e = GetJob (ex_delivery [])" by (simp add: ex_env_def)
  have c: "id' (ex_delivery []) \<noteq> []" by (simp add: ex_delivery_def)
  note T = one_release_or_defer [OF H a b c, of ex_zone]
  have n: "sendNext 5 ?e ex_zone ex_sender = Some (?z, ?s')" by (rule ex_sendNext)
  from T [THEN conjunct2, THEN conjunct1, rule_format, OF n]
  obtain k bs where
    1: "new_commands ex_sender ?s' = GET # k # bs"
    by (elim exE conjE)
  have sm: "smtp ?s' = smtp ?s0 @
       [Send \<lparr>s_from = srsFrom ?e (addSpamHeader (ex_delivery [])),
               s_to = to (addSpamHeader (ex_delivery [])),
               s_size = length (generateReceivedHeader ?e ?z (addSpamHeader (ex_delivery []))
                                  (o_name ex_options))
                        + length (build ?e (headers (prepared ?e ?z
                                     (addSpamHeader (ex_delivery [])) ex_options)))
                        + bodySize (addSpamHeader (ex_delivery []))\<rparr>
          (build ?e (headers (prepared ?e ?z (addSpamHeader (ex_delivery [])) ex_options))),
        Close]"
    by (rule deliver_sent)
  have ok: "send ?e ex_options x y = SendOk ''250 2.0.0 OK queued''" for x y
    by (simp add: ex_env_def)
  from T [THEN conjunct2, THEN conjunct2, THEN conjunct1, rule_format, OF sm ok]
  have 2: "new_commands ?s0 ?s' = [RELEASE ''m1'' ''1'' ''L1'']"
    by (simp add: addSpamHeader_fields ex_reject_facts)
  have 3: "new_commands ex_sender ?s' = [GET, RELEASE ''m1'' ''1'' ''L1'']"
    using 2 by (simp add: new_commands_GET)
  have x: "\<exists>z' s'. sendNext 5 ?e ex_zone ex_sender = Some (z', s')
         \<and> new_commands ex_sender s' = [GET, RELEASE ''m1'' ''1'' ''L1'']"
    by (rule exI [of _ ?z], rule exI [of _ ?s']) (intro conjI, rule n, rule 3)
  have H2: "\<forall>opts. ignoreTLS opts \<longrightarrow> \<not> tlsFailure ?e2 opts"
    by (simp add: tlsFailure_def ex_env_def)
  have b2: "queue_get ?e2 = GetJob (ex_delivery [])" by (simp add: ex_env_def)
  note T2 = one_release_or_defer [OF H2 a b2 c, of ex_zone]
  have be: "bounces_enabled (conf ?e2)" by (rule ex_reject_facts)
  have rej: "action (bounces_check ?e2 (response ?err)) = ''reject''" by (rule ex_reject_facts)
  have le: "deferredCount (ex_delivery []) \<le> 6" by (rule ex_reject_facts)
  have r: "response ?err = Some ''550 5.1.1 no such user''"
    "category (bounces_check ?e2 (Some ''550 5.1.1 no such user'')) = ''recipient''"
    "formatSMTPResponse ?e2 v = v" "to (ex_delivery []) = [''b@y.test'']"
    "from' (ex_delivery []) = ''a@X.example''"
    "headers (ex_delivery []) = [\<lparr>key = ''from'', line = ''From: a@X.example''\<rparr>]" for v
    by (simp_all add: ex_env_def ex_error_def ex_classify_def ex_delivery_def)
  from T2 [THEN conjunct2, THEN conjunct2, THEN conjunct2, THEN conjunct2, THEN conjunct1,
           rule_format, OF rej le, of ex_sender]
  have y: "new_commands ex_sender (handleResponseError ?e2 (ex_delivery []) ?err ex_sender)
       = [RELEASE ''m1'' ''1'' ''L1'',
          BOUNCE ''m1'' ''a@X.example'' [''b@y.test''] ''1''
            [\<lparr>key = ''from'', line = ''From: a@X.example''\<rparr>]
            ''a@X.example'' ''recipient'' ''550 5.1.1 no such user'']"
    by (simp add: ex_reject_facts r get_def)
  have le0: "deferredCount ?d0 \<le> 6" by (simp add: deferredCount_def ex_delivery_def)
  from T2 [THEN conjunct2, THEN conjunct2, THEN conjunct2, THEN conjunct2, THEN conjunct1,
           rule_format, OF rej le0, of ex_sender]
  have w: "new_commands ex_sender (handleResponseError ?e2 ?d0 ?err ex_sender)
       = [RELEASE ''m1'' ''1'' ''L1'']"
    by (simp add: ex_delivery_def)
  have H3: "\<forall>opts. ignoreTLS opts \<longrightarrow> \<not> tlsFailure ?e3 opts"
    by (simp add: tlsFailure_def ex_env_def)
  have b3: "queue_get ?e3 = GetJob (ex_delivery [])" by (simp add: ex_env_def)
  note T3 = one_release_or_defer [OF H3 a b3 c, of ex_zone]
  have nb: "\<not> bounces_enabled (conf ?e3)" by simp
  have rej3: "action (bounces_check ?e3 (response ?err)) = ''reject''"
    by (simp add: ex_env_def ex_error_def ex_classify_def)
  from T3 [THEN conjunct2, THEN conjunct2, THEN conjunct2, THEN conjunct2, THEN conjunct1,
           rule_format, OF rej3 le, of ex_sender]
  have v: "new_commands ex_sender (handleResponseError ?e3 (ex_delivery []) ?err ex_sender)
       = [RELEASE ''m1'' ''1'' ''L1'']"
    by (simp add: ex_reject_facts)
  show ?thesis by (intro conjI) (rule a b c x be y w nb v)+
qed

subsection \<open>Deferral\<close>

text \<open>
  C3. Whenever a delivery is deferred, the TTL of the \<open>DEFER\<close> command is
  \<open>min(5^(deferredCount+1), 1024) * 60 * 1000\<close> milliseconds, where \<open>deferredCount\<close> is
  the count of earlier deferrals that the delivery carries, and 0 when the delivery
  carries none. So the TTL never exceeds \<open>1024 * 60\<close> seconds, equals that cap from
  \<open>deferredCount = 5\<close> on, and does not decrease when \<open>deferredCount\<close> grows. The last
  two parts state the same for a whole iteration of \<open>sendNext\<close>, with the count of the
  delivery that \<open>GET\<close> returned, and give the TTL from the count the delivery carries.
\<close>

theorem defer_ttl:
  "(deferred d = None \<longrightarrow> deferredCount d = 0) \<and>
   (\<forall>c. deferred d = Some c \<longrightarrow> deferredCount d = c) \<and>
   (\<forall>i q l t. DEFER i q l t \<in> set (new_commands s (handleResponseError e d err s)) \<longrightarrow>
      t = min (5 ^ (deferredCount d + 1)) 1024 * 60 * 1000
      \<and> t \<le> 1024 * 60 * 1000
      \<and> (5 \<le> deferredCount d \<longrightarrow> t = 1024 * 60 * 1000)
      \<and> (\<forall>e' d' err' s' i' q' l' t'.
            DEFER i' q' l' t' \<in> set (new_commands s' (handleResponseError e' d' err' s')) \<longrightarrow>
            deferredCount d \<le> deferredCount d' \<longrightarrow> t \<le> t')) \<and>
   (\<forall>n z z' s' dl i q l t.
      sendNext n e z s = Some (z', s') \<longrightarrow> queue_get e = GetJob dl \<longrightarrow>
      DEFER i q l t \<in> set (new_commands s s') \<longrightarrow>
      t = min (5 ^ (deferredCount dl + 1)) 1024 * 60 * 1000) \<and>
   (\<forall>i q l t.
      DEFER i q l t \<in> set (new_commands s (handleResponseError e d err s)) \<longrightarrow>
      t = (case deferred d of None \<Rightarrow> 5 * 60 * 1000
           | Some c \<Rightarrow> min (5 ^ (c + 1)) 1024 * 60 * 1000))"
proof (intro conjI allI impI)
  assume "deferred d = None"
  then show "deferredCount d = 0" by (simp add: deferredCount_def)
next
  fix c
  assume "deferred d = Some c"
  then show "deferredCount d = c" by (simp add: deferredCount_def)
next
  fix i q l t
  assume a: "DEFER i q l t \<in> set (new_commands s (handleResponseError e d err s))"
  from handleResponseError_defer [OF a]
  show "t = (case deferred d of None \<Rightarrow> 5 * 60 * 1000
             | Some c \<Rightarrow> min (5 ^ (c + 1)) 1024 * 60 * 1000)"
    by (simp add: deferredCount_def split: option.splits)
next
  fix i q l t
  assume a: "DEFER i q l t \<in> set (new_commands s (handleResponseError e d err s))"
  from handleResponseError_defer [OF a]
  show t: "t = min (5 ^ (deferredCount d + 1)) 1024 * 60 * 1000" .
  then show "t \<le> 1024 * 60 * 1000" by simp
  {
    assume "5 \<le> deferredCount d"
    then have "min ((5::nat) ^ (deferredCount d + 1)) 1024 = 1024" by (intro ttl_cap) simp
    with t show "t = 1024 * 60 * 1000" by simp
  }
  fix e' d' err' s' i' q' l' t'
  assume b: "DEFER i' q' l' t' \<in> set (new_commands s' (handleResponseError e' d' err' s'))"
    and le: "deferredCount d \<le> deferredCount d'"
  from handleResponseError_defer [OF b] t ttl_mono [OF le]
  show "t \<le> t'" by simp
next
  fix n z z' s' dl i q l t
  assume "sendNext n e z s = Some (z', s')" "queue_get e = GetJob dl"
    "DEFER i q l t \<in> set (new_commands s s')"
  then show "t = min (5 ^ (deferredCount dl + 1)) 1024 * 60 * 1000"
    by (rule sendNext_defer)
qed

theorem defer_ttl_witness:
  "DEFER ''m1'' ''1'' ''L1'' 300000 \<in> set (new_commands ex_sender
     (handleResponseError (ex_env GetEmpty (SendOk [])) (ex_delivery [])
        (ex_error [] ''451 4.3.0 try later'') ex_sender))
   \<and> deferred (ex_delivery []) = None \<and> deferredCount (ex_delivery []) = 0
   \<and> (300000::nat) = min (5 ^ (deferredCount (ex_delivery []) + 1)) 1024 * 60 * 1000
   \<and> (\<exists>z' s'. sendNext 5 (ex_env (GetJob (ex_delivery []))
                   (SendError (ex_error [] ''451 4.3.0 try later''))) ex_zone ex_sender
                 = Some (z', s')
         \<and> DEFER ''m1'' ''1'' ''L1'' 300000 \<in> set (new_commands ex_sender s'))
   \<and> new_commands ex_sender
       (handleResponseError (ex_env GetEmpty (SendOk [])) ((ex_delivery [])\<lparr>deferred := Some 1\<rparr>)
          (ex_error [] ''451 4.3.0 try later'') ex_sender) = [DEFER ''m1'' ''1'' ''L1'' 1500000]
   \<and> deferredCount ((ex_delivery [])\<lparr>deferred := Some 1\<rparr>) = 1
   \<and> (1500000::nat) = min (5 ^ (1 + 1)) 1024 * 60 * 1000
   \<and> new_commands ex_sender
       (handleResponseError (ex_env GetEmpty (SendOk [])) ((ex_delivery [])\<lparr>deferred := Some 5\<rparr>)
          (ex_error [] ''451 4.3.0 try later'') ex_sender) = [DEFER ''m1'' ''1'' ''L1'' 61440000]
   \<and> deferredCount ((ex_delivery [])\<lparr>deferred := Some 5\<rparr>) = 5
   \<and> (61440000::nat) = 1024 * 60 * 1000"
proof -
  let ?e = "ex_env GetEmpty (SendOk [])"
  let ?err = "ex_error [] ''451 4.3.0 try later''"
  let ?d1 = "(ex_delivery [])\<lparr>deferred := Some 1\<rparr>"
  let ?d5 = "(ex_delivery [])\<lparr>deferred := Some 5\<rparr>"
  note T = defer_ttl [of "ex_delivery []" ex_sender ?e ?err]
  note T1 = defer_ttl [of ?d1 ex_sender ?e ?err]
  note T5 = defer_ttl [of ?d5 ex_sender ?e ?err]
  have m: "DEFER ''m1'' ''1'' ''L1'' 300000 \<in> set (new_commands ex_sender
     (handleResponseError ?e (ex_delivery []) ?err ex_sender))"
    by (simp add: ex_handle_defer)
  have n: "deferred (ex_delivery []) = None" by (simp add: ex_delivery_def)
  from T [THEN conjunct1, rule_format, OF n]
  have c: "deferredCount (ex_delivery []) = 0" .
  from T [THEN conjunct2, THEN conjunct2, THEN conjunct1, rule_format, OF m, THEN conjunct1]
  have t: "(300000::nat) = min (5 ^ (deferredCount (ex_delivery []) + 1)) 1024 * 60 * 1000" .
  from ex_sendNext_defer obtain s' where
    "sendNext 5 (ex_env (GetJob (ex_delivery []))
                   (SendError (ex_error [] ''451 4.3.0 try later''))) ex_zone ex_sender
       = Some (ex_zone\<lparr>disableStarttls := True\<rparr>, s')"
    "new_commands ex_sender s' = [GET, DEFER ''m1'' ''1'' ''L1'' 300000]"
    by (elim exE conjE)
  then have x: "\<exists>z' s'. sendNext 5 (ex_env (GetJob (ex_delivery []))
                   (SendError (ex_error [] ''451 4.3.0 try later''))) ex_zone ex_sender
                 = Some (z', s')
         \<and> DEFER ''m1'' ''1'' ''L1'' 300000 \<in> set (new_commands ex_sender s')"
    by simp
  have m1: "new_commands ex_sender (handleResponseError ?e ?d1 ?err ex_sender)
              = [DEFER ''m1'' ''1'' ''L1'' 1500000]"
    by (simp add: new_commands_append [OF handleResponseError_issued] ex_env_def ex_delivery_def
          ex_error_def ex_classify_def deferredCount_def)
  have n1: "deferred ?d1 = Some 1" by simp
  from T1 [THEN conjunct2, THEN conjunct1, rule_format, OF n1]
  have c1: "deferredCount ?d1 = 1" .
  have i1: "DEFER ''m1'' ''1'' ''L1'' 1500000
              \<in> set (new_commands ex_sender (handleResponseError ?e ?d1 ?err ex_sender))"
    by (simp only: m1 list.set insertI1)
  from T1 [THEN conjunct2, THEN conjunct2, THEN conjunct1, rule_format, OF i1, THEN conjunct1]
  have "(1500000::nat) = min (5 ^ (deferredCount ?d1 + 1)) 1024 * 60 * 1000" .
  then have t1: "(1500000::nat) = min (5 ^ (1 + 1)) 1024 * 60 * 1000"
    by (simp only: c1)
  have m5: "new_commands ex_sender (handleResponseError ?e ?d5 ?err ex_sender)
              = [DEFER ''m1'' ''1'' ''L1'' 61440000]"
    by (simp add: new_commands_append [OF handleResponseError_issued] ex_env_def ex_delivery_def
          ex_error_def ex_classify_def deferredCount_def)
  have n5: "deferred ?d5 = Some 5" by simp
  from T5 [THEN conjunct2, THEN conjunct1, rule_format, OF n5]
  have c5: "deferredCount ?d5 = 5" .
  have i5: "DEFER ''m1'' ''1'' ''L1'' 61440000
              \<in> set (new_commands ex_sender (handleResponseError ?e ?d5 ?err ex_sender))"
    by (simp only: m5 list.set insertI1)
  have le5: "5 \<le> deferredCount ?d5" by (simp only: c5)
  from T5 [THEN conjunct2, THEN conjunct2, THEN conjunct1, rule_format, OF i5,
           THEN conjunct2, THEN conjunct2, THEN conjunct1, rule_format, OF le5]
  have t5: "(61440000::nat) = 1024 * 60 * 1000" .
  show ?thesis
    by (intro conjI) (rule m n c t x m1 c1 t1 m5 c5 t5)+
qed

text \<open>
  C2. The claim says that a delivery deferred more than six times is never deferred again.
  The guard of \<open>handleResponseError\<close> is \<open>action !== 'reject' || deferredCount > 6\<close>, so
  such a delivery is always deferred, with the capped TTL, whatever the classifier says.
  In the instance below the reply is \<open>550\<close>, which the classifier rejects, and the
  delivery has seven earlier deferrals: the only command is \<open>DEFER\<close>.
\<close>

theorem chronic_reject_is_deferred:
  "6 < deferredCount d \<Longrightarrow>
     new_commands s (handleResponseError e d err s) =
       [DEFER (id' d) (seq d) (lock d) (1024 * 60 * 1000)]"
proof -
  assume a: "6 < deferredCount d"
  then have "min ((5::nat) ^ (deferredCount d + 1)) 1024 = 1024" by (intro ttl_cap) simp
  with a show ?thesis
    by (simp add: new_commands_append [OF handleResponseError_issued])
qed

theorem chronic_reject_is_deferred_witness:
  "6 < deferredCount ((ex_delivery [])\<lparr>deferred := Some 7\<rparr>)
   \<and> action (bounces_check (ex_env GetEmpty (SendOk [])) (response (ex_error [] ''550 5.1.1 no such user''))) = ''reject''
   \<and> new_commands ex_sender
        (handleResponseError (ex_env GetEmpty (SendOk [])) ((ex_delivery [])\<lparr>deferred := Some 7\<rparr>)
           (ex_error [] ''550 5.1.1 no such user'') ex_sender)
      = [DEFER ''m1'' ''1'' ''L1'' 61440000]"
proof -
  have a: "6 < deferredCount ((ex_delivery [])\<lparr>deferred := Some 7\<rparr>)"
    by (simp add: deferredCount_def)
  have b: "action (bounces_check (ex_env GetEmpty (SendOk [])) (response (ex_error [] ''550 5.1.1 no such user''))) = ''reject''"
    by (simp add: ex_env_def ex_error_def ex_classify_def)
  from chronic_reject_is_deferred [OF a, of ex_sender "ex_env GetEmpty (SendOk [])"
      "ex_error [] ''550 5.1.1 no such user''"]
  have c: "new_commands ex_sender
        (handleResponseError (ex_env GetEmpty (SendOk [])) ((ex_delivery [])\<lparr>deferred := Some 7\<rparr>)
           (ex_error [] ''550 5.1.1 no such user'') ex_sender)
      = [DEFER ''m1'' ''1'' ''L1'' 61440000]"
    by (simp add: ex_delivery_def)
  show ?thesis by (intro conjI) (rule a b c)+
qed

subsection \<open>Bounces\<close>

text \<open>
  C10. For a delivery with an empty envelope sender, \<open>sendBounceMessage\<close> returns
  without a command, and no \<open>BOUNCE\<close> is among the commands of
  \<open>handleResponseError\<close>, whatever the configuration and the headers.
\<close>

theorem no_bounce_without_sender:
  "from' d = [] \<Longrightarrow>
     sendBounceMessage e d b r s = s
     \<and> (\<forall>c \<in> set (new_commands s (handleResponseError e d err s)). \<not> isBOUNCE c)"
  by (simp add: sendBounceMessage_def new_commands_append [OF handleResponseError_issued])

theorem no_bounce_without_sender_witness:
  "from' ((ex_delivery [])\<lparr>from' := []\<rparr>) = []
   \<and> sendBounceMessage (ex_env GetEmpty (SendOk [])) ((ex_delivery [])\<lparr>from' := []\<rparr>)
        (ex_classify (Some ''550 5.1.1 no such user'')) ''550 5.1.1 no such user'' ex_sender
      = ex_sender
   \<and> new_commands ex_sender
        (handleResponseError (ex_env GetEmpty (SendOk [])) ((ex_delivery [])\<lparr>from' := []\<rparr>)
           (ex_error [] ''550 5.1.1 no such user'') ex_sender)
      = [RELEASE ''m1'' ''1'' ''L1'']"
proof -
  have f: "from' ((ex_delivery [])\<lparr>from' := []\<rparr>) = []" by simp
  have c: "new_commands ex_sender
        (handleResponseError (ex_env GetEmpty (SendOk [])) ((ex_delivery [])\<lparr>from' := []\<rparr>)
           (ex_error [] ''550 5.1.1 no such user'') ex_sender)
      = [RELEASE ''m1'' ''1'' ''L1'']"
    by (simp add: new_commands_append [OF handleResponseError_issued] ex_env_def ex_delivery_def
        ex_error_def ex_classify_def deferredCount_def)
  from no_bounce_without_sender [OF f] f c show ?thesis by simp
qed



text \<open>
  C9. The claim allows five retries of the webhook. The test \<open>retries++ <= 5\<close> compares
  the counter before it is incremented, so with a webhook that always fails the POST is
  sent seven times: six retries, after 1, 4, 9, 16, 25 and 36 seconds. The instance below
  is a permanent reject with \<open>bounces.url\<close> configured.
\<close>

theorem webhook_six_retries:
  assumes "\<forall>n. fetch e n \<noteq> StreamEnd"
  shows "timeouts (hooks (notifyBounce e body 0 s)) =
           timeouts (hooks s) @ [1000, 4000, 9000, 16000, 25000, 36000]
         \<and> posts (hooks (notifyBounce e body 0 s)) = posts (hooks s) @ replicate 7 body"
proof -
  have "map (\<lambda>k. k ^ 2 * 1000) [0 + 1 ..< 7] = [1000, 4000, 9000, 16000, 25000, 36000::nat]"
    by (simp add: upt_rec power2_eq_square)
  with notifyBounce_failing [OF assms, of 0 body s] show ?thesis by simp
qed

theorem webhook_six_retries_witness:
  "fetch (ex_env GetEmpty (SendOk [])) 6 \<noteq> StreamEnd
   \<and> timeouts (hooks (handleResponseError (ex_env GetEmpty (SendOk [])) (ex_delivery [])
      (ex_error [] ''550 5.1.1 no such user'') ex_sender))
     = [1000, 4000, 9000, 16000, 25000, 36000]
   \<and> length (posts (hooks (handleResponseError (ex_env GetEmpty (SendOk [])) (ex_delivery [])
      (ex_error [] ''550 5.1.1 no such user'') ex_sender))) = 7"
proof -
  let ?e = "ex_env GetEmpty (SendOk [])"
  let ?b = "\<lparr>w_id = ''m1'', w_to = [''b@y.test''], w_seq = ''1'',
             w_returnPath = ''a@X.example'', w_category = ''recipient'',
             w_response = ''550 5.1.1 no such user'', w_fbl = None\<rparr>"
  let ?s1 = "ex_sender\<lparr>issued := [RELEASE ''m1'' ''1'' ''L1'']\<rparr>"
  have a: "\<forall>n. fetch ?e n \<noteq> StreamEnd" by (simp add: ex_env_def)
  have h: "hooks (handleResponseError ?e (ex_delivery [])
      (ex_error [] ''550 5.1.1 no such user'') ex_sender) = hooks (notifyBounce ?e ?b 0 ?s1)"
    by (simp add: handleResponseError_def Let_def releaseDelivery_def sendCommand_def
        ex_env_def ex_delivery_def ex_error_def ex_classify_def
        ex_config_def ex_sender_def deferredCount_def)
  have s1: "hooks ?s1 = []" by (simp add: ex_sender_def)
  note W = webhook_six_retries [OF a, of ?b ?s1]
  from W have c: "timeouts (hooks (handleResponseError ?e (ex_delivery [])
      (ex_error [] ''550 5.1.1 no such user'') ex_sender))
     = [1000, 4000, 9000, 16000, 25000, 36000]"
    by (simp only: h s1 timeouts.simps append_Nil)
  from W have d: "length (posts (hooks (handleResponseError ?e (ex_delivery [])
      (ex_error [] ''550 5.1.1 no such user'') ex_sender))) = 7"
    by (simp only: h s1 posts.simps append_Nil length_replicate)
  from a have a6: "fetch ?e 6 \<noteq> StreamEnd" by (rule spec)
  show ?thesis by (intro conjI) (rule a6 c d)+
qed

subsection \<open>What is sent\<close>

text \<open>
  C4, as amended. The worker adds exactly one \<open>Received\<close> line to the header block,
  made from the local HELO name of the established connection, or from the system
  hostname when no connection was established. It is prepended at index 0. DKIM signing
  comes after it and prepends as well (\<open>addFormatted\<close> without an index), so in the block
  that is serialised, and in the block a later \<open>BOUNCE\<close> carries, the line stands at index
  \<open>k\<close>, below the \<open>k\<close> \<open>DKIM-Signature\<close> lines that signing produced and directly above
  the lines the delivery came with; \<open>k\<close> is at most the number of keys, and 0 when DKIM is
  disabled, when the delivery has no \<open>dkim\<close>, and when no connection was established.
\<close>

theorem received_header_position:
  "(\<exists>sigs. headers (prepared e z d c) =
             sigs @ \<lparr>key = ''received'', line = generateReceivedHeader e z d (o_name c)\<rparr>
                    # headers d
       \<and> headers (prepared e z d c) ! length sigs =
             \<lparr>key = ''received'', line = generateReceivedHeader e z d (o_name c)\<rparr>
       \<and> (\<forall>h \<in> set sigs. key h = ''dkim-signature'')
       \<and> length sigs \<le> (case dkim d of None \<Rightarrow> 0 | Some dk \<Rightarrow> length (keys dk))
       \<and> (\<not> dkim_enabled (conf e) \<or> dkim d = None \<longrightarrow> sigs = []))
   \<and> (\<exists>sa. smtp (deliver e z d (Inr c) s) =
               smtp s @ [Send sa (build e (headers (prepared e z d c))), Close])
   \<and> (\<forall>i f t q h rp cat m.
         BOUNCE i f t q h rp cat m \<in> set (new_commands s (deliver e z d (Inr c) s)) \<longrightarrow>
         h = headers (prepared e z d c))
   \<and> (\<forall>err i f t q h rp cat m.
         BOUNCE i f t q h rp cat m \<in> set (new_commands s (deliver e z d (Inl err) s)) \<longrightarrow>
         h = \<lparr>key = ''received'', line = generateReceivedHeader e z d (os_hostname e)\<rparr>
               # headers d)"
proof (intro conjI allI impI)
  from prepared_headers [of e z d c] obtain sigs where
    p: "prepared e z d c = d\<lparr>headers := sigs @ \<lparr>key = ''received'',
                                  line = generateReceivedHeader e z d (o_name c)\<rparr> # headers d\<rparr>"
    and r: "\<forall>h \<in> set sigs. key h = ''dkim-signature''"
      "\<not> dkim_enabled (conf e) \<or> dkim d = None \<longrightarrow> sigs = []"
      "length sigs \<le> (case dkim d of None \<Rightarrow> 0 | Some dk \<Rightarrow> length (keys dk))"
    by auto
  from p r show "\<exists>sigs. headers (prepared e z d c) =
             sigs @ \<lparr>key = ''received'', line = generateReceivedHeader e z d (o_name c)\<rparr>
                    # headers d
       \<and> headers (prepared e z d c) ! length sigs =
             \<lparr>key = ''received'', line = generateReceivedHeader e z d (o_name c)\<rparr>
       \<and> (\<forall>h \<in> set sigs. key h = ''dkim-signature'')
       \<and> length sigs \<le> (case dkim d of None \<Rightarrow> 0 | Some dk \<Rightarrow> length (keys dk))
       \<and> (\<not> dkim_enabled (conf e) \<or> dkim d = None \<longrightarrow> sigs = [])"
    by (intro exI [of _ sigs]) simp
next
  show "\<exists>sa. smtp (deliver e z d (Inr c) s) =
               smtp s @ [Send sa (build e (headers (prepared e z d c))), Close]"
    by (simp add: deliver_sent)
next
  fix i f t q h rp cat m
  assume "BOUNCE i f t q h rp cat m \<in> set (new_commands s (deliver e z d (Inr c) s))"
  from deliver_bounce_headers [OF this] show "h = headers (prepared e z d c)" by simp
next
  fix err i f t q h rp cat m
  assume "BOUNCE i f t q h rp cat m \<in> set (new_commands s (deliver e z d (Inl err) s))"
  from deliver_bounce_headers [OF this]
  show "h = \<lparr>key = ''received'', line = generateReceivedHeader e z d (os_hostname e)\<rparr>
               # headers d"
    by (simp add: withReceived_eq)
qed

text \<open>
  The claim as stated puts the line at index 0 even after signing. With one key the block
  on the wire starts with the signature, and the worker's line is at index 1.
\<close>

theorem received_header_position_counterexample:
  "smtp (deliver (ex_env GetEmpty (SendOk [])) ex_zone (ex_delivery []) (Inr ex_options)
           ex_sender) =
        [Send \<lparr>s_from = ''SRS0=x.example=a@srs.test'', s_to = [''b@y.test''], s_size = 97\<rparr>
           (build (ex_env GetEmpty (SendOk []))
                   [\<lparr>key = ''dkim-signature'', line = ''DKIM-Signature: k1''\<rparr>,
                    \<lparr>key = ''received'', line = ''Received: from out.test''\<rparr>,
                    \<lparr>key = ''from'', line = ''From: a@X.example''\<rparr>]), Close]
   \<and> headers (prepared (ex_env GetEmpty (SendOk [])) ex_zone (ex_delivery []) ex_options) ! 0
       = \<lparr>key = ''dkim-signature'', line = ''DKIM-Signature: k1''\<rparr>
   \<and> headers (prepared (ex_env GetEmpty (SendOk [])) ex_zone (ex_delivery []) ex_options) ! 0
       \<noteq> \<lparr>key = ''received'',
            line = generateReceivedHeader (ex_env GetEmpty (SendOk [])) ex_zone (ex_delivery [])
                     (o_name ex_options)\<rparr>
   \<and> headers (prepared (ex_env GetEmpty (SendOk [])) ex_zone (ex_delivery []) ex_options) ! 1
       = \<lparr>key = ''received'',
            line = generateReceivedHeader (ex_env GetEmpty (SendOk [])) ex_zone (ex_delivery [])
                     (o_name ex_options)\<rparr>"
proof -
  have "map lower_char ''X.example'' = ''x.example''" by code_simp
  then have lw: "lower_char CHR ''X'' = CHR ''x''" "lower_char CHR ''.'' = CHR ''.''"
    "lower_char CHR ''e'' = CHR ''e''" "lower_char CHR ''x'' = CHR ''x''"
    "lower_char CHR ''a'' = CHR ''a''" "lower_char CHR ''m'' = CHR ''m''"
    "lower_char CHR ''p'' = CHR ''p''" "lower_char CHR ''l'' = CHR ''l''"
    by simp_all
  show ?thesis
    by (simp add: deliver_sent ex_prepared ex_sender_def)
       (simp add: ex_env_def ex_options_def ex_delivery_def ex_config_def srsFrom_def
          substr_def Let_def lw)
qed

theorem received_header_position_witness:
  "dkim_enabled (conf (ex_env GetEmpty (SendError (ex_error [] ''550 5.1.1 no such user''))))
   \<and> (\<exists>k. dkim (ex_delivery []) = Some k \<and> length (keys k) = 1)
   \<and> (\<exists>sigs. headers (prepared (ex_env GetEmpty (SendError (ex_error [] ''550 5.1.1 no such user'')))
                  ex_zone (ex_delivery []) ex_options) =
                sigs @ [\<lparr>key = ''received'', line = ''Received: from out.test''\<rparr>,
                        \<lparr>key = ''from'', line = ''From: a@X.example''\<rparr>]
          \<and> length sigs = 1)
   \<and> BOUNCE ''m1'' ''a@X.example'' [''b@y.test''] ''1''
         [\<lparr>key = ''dkim-signature'', line = ''DKIM-Signature: k1''\<rparr>,
          \<lparr>key = ''received'', line = ''Received: from out.test''\<rparr>,
          \<lparr>key = ''from'', line = ''From: a@X.example''\<rparr>]
         ''a@X.example'' ''recipient'' ''550 5.1.1 no such user''
       \<in> set (new_commands (ex_sender\<lparr>issued := issued ex_sender @ [GET], emptyChecks := 0\<rparr>)
             (deliver (ex_env GetEmpty (SendError (ex_error [] ''550 5.1.1 no such user'')))
                ex_zone (ex_delivery []) (Inr ex_options)
                (ex_sender\<lparr>issued := issued ex_sender @ [GET], emptyChecks := 0\<rparr>)))"
proof -
  let ?e = "ex_env GetEmpty (SendError (ex_error [] ''550 5.1.1 no such user''))"
  let ?s0 = "ex_sender\<lparr>issued := issued ex_sender @ [GET], emptyChecks := 0\<rparr>"
  note T = received_header_position [of ?e ex_zone "ex_delivery []" ex_options ?s0]
  have a: "dkim_enabled (conf ?e)" by (simp add: ex_env_def ex_config_def)
  have b: "\<exists>k. dkim (ex_delivery []) = Some k \<and> length (keys k) = 1"
    by (simp add: ex_delivery_def)
  from T [THEN conjunct1] obtain sigs where
    h: "headers (prepared ?e ex_zone (ex_delivery []) ex_options) =
             sigs @ \<lparr>key = ''received'',
                      line = generateReceivedHeader ?e ex_zone (ex_delivery []) (o_name ex_options)\<rparr>
                    # headers (ex_delivery [])"
    by (elim exE conjE)
  have l: "length sigs = 1"
  proof -
    from h have "length (headers (prepared ?e ex_zone (ex_delivery []) ex_options))
        = length sigs + 1 + length (headers (ex_delivery []))" by simp
    moreover have "length (headers (prepared ?e ex_zone (ex_delivery []) ex_options)) = 3"
      by (simp add: ex_prepared)
    moreover have "length (headers (ex_delivery [])) = 1" by (simp add: ex_delivery_def)
    ultimately show ?thesis by simp
  qed
  from h have h': "headers (prepared ?e ex_zone (ex_delivery []) ex_options) =
                sigs @ [\<lparr>key = ''received'', line = ''Received: from out.test''\<rparr>,
                        \<lparr>key = ''from'', line = ''From: a@X.example''\<rparr>]"
    by (simp add: ex_env_def ex_options_def ex_delivery_def)
  have c: "\<exists>sigs. headers (prepared ?e ex_zone (ex_delivery []) ex_options) =
                sigs @ [\<lparr>key = ''received'', line = ''Received: from out.test''\<rparr>,
                        \<lparr>key = ''from'', line = ''From: a@X.example''\<rparr>]
          \<and> length sigs = 1"
    by (rule exI [of _ sigs]) (intro conjI, rule h', rule l)
  have d: "BOUNCE ''m1'' ''a@X.example'' [''b@y.test''] ''1''
         [\<lparr>key = ''dkim-signature'', line = ''DKIM-Signature: k1''\<rparr>,
          \<lparr>key = ''received'', line = ''Received: from out.test''\<rparr>,
          \<lparr>key = ''from'', line = ''From: a@X.example''\<rparr>]
         ''a@X.example'' ''recipient'' ''550 5.1.1 no such user''
       \<in> set (new_commands ?s0 (deliver ?e ex_zone (ex_delivery []) (Inr ex_options) ?s0))"
    using ex_deliver_reject [of GetEmpty ex_zone "[]"]
    by (simp add: new_commands_def ex_addSpamHeader get_def) (simp add: ex_sender_def)
  show ?thesis by (intro conjI) (rule a b c d)+
qed

text \<open>
  C5. After a successful dial one \<open>send\<close> is made on the connection. Its SIZE is the
  length of the \<open>Received\<close> header that was prepended, plus the length of the built
  header block (which is what is written to the stream), plus the \<open>bodySize\<close> of the
  delivery.
\<close>

theorem size_advertised:
  "\<exists>sa mh. smtp (deliver e z d (Inr c) s) = smtp s @ [Send sa mh, Close]
      \<and> mh = build e (headers (prepared e z d c))
      \<and> s_size sa = length (generateReceivedHeader e z d (o_name c)) + length mh + bodySize d"
  by (simp add: deliver_sent)

theorem size_advertised_witness:
  "\<exists>sa mh. smtp (deliver (ex_env GetEmpty (SendOk [])) ex_zone (ex_delivery []) (Inr ex_options)
               ex_sender) = [Send sa mh, Close]
      \<and> length (generateReceivedHeader (ex_env GetEmpty (SendOk [])) ex_zone (ex_delivery [])
                  (o_name ex_options)) = 23
      \<and> length mh = 64 \<and> bodySize (ex_delivery []) = 10 \<and> s_size sa = 97"
proof -
  let ?e = "ex_env GetEmpty (SendOk [])"
  from size_advertised [of ?e ex_zone "ex_delivery []" ex_options ex_sender]
  obtain sa mh where
    1: "smtp (deliver ?e ex_zone (ex_delivery []) (Inr ex_options) ex_sender)
          = smtp ex_sender @ [Send sa mh, Close]"
    and 2: "mh = build ?e (headers (prepared ?e ex_zone (ex_delivery []) ex_options))"
    and 3: "s_size sa = length (generateReceivedHeader ?e ex_zone (ex_delivery [])
               (o_name ex_options)) + length mh + bodySize (ex_delivery [])"
    by (elim exE conjE)
  have r: "length (generateReceivedHeader ?e ex_zone (ex_delivery []) (o_name ex_options)) = 23"
    by (simp add: ex_env_def ex_options_def)
  have m: "length mh = 64"
    by (simp add: 2 ex_prepared) (simp add: ex_env_def)
  have b: "bodySize (ex_delivery []) = 10" by (simp add: ex_delivery_def)
  from 1 have f1: "smtp (deliver ?e ex_zone (ex_delivery []) (Inr ex_options) ex_sender)
          = [Send sa mh, Close]" by (simp add: ex_sender_def)
  from 3 r m b have z: "s_size sa = 97" by simp
  show ?thesis
    by (rule exI [of _ sa], rule exI [of _ mh]) (intro conjI, (rule f1 r m b z)+)
qed

text \<open>
  C8. With SRS enabled and a non-empty envelope sender, let \<open>dm\<close> be the text after the
  last \<open>@\<close> and \<open>l\<close> the text before it; a sender without \<open>@\<close> is its own \<open>dm\<close>
  and has the empty \<open>l\<close> (\<open>lastIndexOf\<close> gives \<open>-1\<close>), and every sender is of one of
  the two shapes. The sender given to \<open>send\<close> is the original one if \<open>dm.toLowerCase()\<close>
  is among \<open>srs.excludeDomains\<close>, and otherwise
  \<open>srsRewriter.rewrite(l, dm.toLowerCase()) + '@' + srs.rewriteDomain\<close>. The \<open>From:\<close>
  lines of the header block that is sent are those the delivery came with, and the
  \<open>from\<close> field of the delivery is unchanged.
\<close>

theorem envelope_rewrite:
  assumes "srs_enabled (conf e)" "from' d \<noteq> []"
    and "from' d = l @ CHR ''@'' # dm \<and> CHR ''@'' \<notin> set dm
         \<or> CHR ''@'' \<notin> set (from' d) \<and> l = [] \<and> dm = from' d"
  shows "(\<exists>sa mh. smtp (deliver e z d (Inr c) s) = smtp s @ [Send sa mh, Close]
      \<and> s_from sa =
          (if toLowerCase e dm \<in> set (srs_excludeDomains (conf e)) then from' d
           else srs_rewrite e l (toLowerCase e dm) @ ''@'' @ srs_rewriteDomain (conf e))
      \<and> mh = build e (headers (prepared e z d c))
      \<and> get ''From'' (headers (prepared e z d c)) = get ''From'' (headers d)
      \<and> from' (prepared e z d c) = from' d)
    \<and> ((\<exists>l' dm'. from' d = l' @ CHR ''@'' # dm' \<and> CHR ''@'' \<notin> set dm')
         \<or> CHR ''@'' \<notin> set (from' d))"
  by (simp add: deliver_sent srsFrom_split [OF assms] prepared_From prepared_fields
        last_at_split)

theorem envelope_rewrite_witness:
  "srs_enabled (conf (ex_env GetEmpty (SendOk [])))
   \<and> from' (ex_delivery []) = ''a'' @ CHR ''@'' # ''X.example''
   \<and> CHR ''@'' \<notin> set ''X.example''
   \<and> (\<exists>sa mh. smtp (deliver (ex_env GetEmpty (SendOk [])) ex_zone (ex_delivery [])
                   (Inr ex_options) ex_sender) = [Send sa mh, Close]
         \<and> s_from sa = ''SRS0=x.example=a@srs.test'')
   \<and> get ''From'' (headers (prepared (ex_env GetEmpty (SendOk [])) ex_zone (ex_delivery [])
          ex_options)) = [''From: a@X.example'']
   \<and> CHR ''@'' \<notin> set ''postmaster''
   \<and> (\<exists>sa mh. smtp (deliver (ex_env GetEmpty (SendOk [])) ex_zone
                   ((ex_delivery [])\<lparr>from' := ''postmaster''\<rparr>) (Inr ex_options) ex_sender)
                 = [Send sa mh, Close]
         \<and> s_from sa = ''SRS0=postmaster=@srs.test'')
   \<and> (\<exists>sa mh. smtp (deliver (ex_env GetEmpty (SendOk [])) ex_zone
                   ((ex_delivery [])\<lparr>from' := ''a@Local.Test''\<rparr>) (Inr ex_options) ex_sender)
                 = [Send sa mh, Close]
         \<and> s_from sa = ''a@Local.Test'')"
proof -
  let ?e = "ex_env GetEmpty (SendOk [])"
  let ?p = "(ex_delivery [])\<lparr>from' := ''postmaster''\<rparr>"
  let ?q = "(ex_delivery [])\<lparr>from' := ''a@Local.Test''\<rparr>"
  have a: "srs_enabled (conf ?e)" by (simp add: ex_env_def ex_config_def)
  have b: "from' (ex_delivery []) = ''a'' @ CHR ''@'' # ''X.example''"
    by (simp add: ex_delivery_def)
  have c: "CHR ''@'' \<notin> set ''X.example''" by simp
  have n: "from' (ex_delivery []) \<noteq> []" by (simp add: ex_delivery_def)
  have lw: "toLowerCase ?e ''X.example'' = ''x.example''"
    unfolding ex_env_def env.simps by code_simp
  from envelope_rewrite [OF a n disjI1 [OF conjI [OF b c]], of ex_zone ex_options ex_sender]
  obtain sa mh where
    1: "smtp (deliver ?e ex_zone (ex_delivery []) (Inr ex_options) ex_sender)
          = smtp ex_sender @ [Send sa mh, Close]"
    and 2: "s_from sa =
          (if toLowerCase ?e ''X.example'' \<in> set (srs_excludeDomains (conf ?e))
           then from' (ex_delivery [])
           else srs_rewrite ?e ''a'' (toLowerCase ?e ''X.example'') @ ''@''
                  @ srs_rewriteDomain (conf ?e))"
    and 3: "get ''From'' (headers (prepared ?e ex_zone (ex_delivery []) ex_options))
              = get ''From'' (headers (ex_delivery []))"
    by (elim exE conjE)
  from 1 have f1: "smtp (deliver ?e ex_zone (ex_delivery []) (Inr ex_options) ex_sender)
          = [Send sa mh, Close]" by (simp add: ex_sender_def)
  from 2 have f2: "s_from sa = ''SRS0=x.example=a@srs.test''"
    by (simp add: lw) (simp add: ex_env_def ex_config_def)
  from 3 have f3: "get ''From'' (headers (prepared ?e ex_zone (ex_delivery []) ex_options))
       = [''From: a@X.example'']"
    by (simp add: get_def ex_delivery_def)
  have x: "\<exists>sa mh. smtp (deliver ?e ex_zone (ex_delivery []) (Inr ex_options) ex_sender)
                  = [Send sa mh, Close] \<and> s_from sa = ''SRS0=x.example=a@srs.test''"
    by (rule exI [of _ sa], rule exI [of _ mh]) (intro conjI, (rule f1 f2)+)
  have pn: "from' ?p \<noteq> []" by simp
  have pa: "CHR ''@'' \<notin> set ''postmaster''" by simp
  have pd: "CHR ''@'' \<notin> set (from' ?p) \<and> ([] :: string) = [] \<and> ''postmaster'' = from' ?p"
    by simp
  have plw: "toLowerCase ?e ''postmaster'' = ''postmaster''"
    unfolding ex_env_def env.simps by code_simp
  from envelope_rewrite [OF a pn disjI2 [OF pd], of ex_zone ex_options ex_sender]
  obtain sa' mh' where
    p1: "smtp (deliver ?e ex_zone ?p (Inr ex_options) ex_sender)
          = smtp ex_sender @ [Send sa' mh', Close]"
    and p2: "s_from sa' =
          (if toLowerCase ?e ''postmaster'' \<in> set (srs_excludeDomains (conf ?e))
           then from' ?p
           else srs_rewrite ?e [] (toLowerCase ?e ''postmaster'') @ ''@''
                  @ srs_rewriteDomain (conf ?e))"
    by (elim exE conjE)
  from p1 have g1: "smtp (deliver ?e ex_zone ?p (Inr ex_options) ex_sender)
          = [Send sa' mh', Close]" by (simp add: ex_sender_def)
  from p2 have g2: "s_from sa' = ''SRS0=postmaster=@srs.test''"
    by (simp add: plw) (simp add: ex_env_def ex_config_def)
  have y: "\<exists>sa mh. smtp (deliver ?e ex_zone ?p (Inr ex_options) ex_sender)
                  = [Send sa mh, Close] \<and> s_from sa = ''SRS0=postmaster=@srs.test''"
    by (rule exI [of _ sa'], rule exI [of _ mh']) (intro conjI, (rule g1 g2)+)
  have qn: "from' ?q \<noteq> []" by simp
  have qd: "from' ?q = ''a'' @ CHR ''@'' # ''Local.Test'' \<and> CHR ''@'' \<notin> set ''Local.Test''"
    by simp
  have qlw: "toLowerCase ?e ''Local.Test'' = ''local.test''"
    unfolding ex_env_def env.simps by code_simp
  from envelope_rewrite [OF a qn disjI1 [OF qd], of ex_zone ex_options ex_sender]
  obtain sa'' mh'' where
    q1: "smtp (deliver ?e ex_zone ?q (Inr ex_options) ex_sender)
          = smtp ex_sender @ [Send sa'' mh'', Close]"
    and q2: "s_from sa'' =
          (if toLowerCase ?e ''Local.Test'' \<in> set (srs_excludeDomains (conf ?e))
           then from' ?q
           else srs_rewrite ?e ''a'' (toLowerCase ?e ''Local.Test'') @ ''@''
                  @ srs_rewriteDomain (conf ?e))"
    by (elim exE conjE)
  from q1 have h1: "smtp (deliver ?e ex_zone ?q (Inr ex_options) ex_sender)
          = [Send sa'' mh'', Close]" by (simp add: ex_sender_def)
  from q2 have h2: "s_from sa'' = ''a@Local.Test''"
    by (simp add: qlw) (simp add: ex_env_def ex_config_def)
  have w: "\<exists>sa mh. smtp (deliver ?e ex_zone ?q (Inr ex_options) ex_sender)
                  = [Send sa mh, Close] \<and> s_from sa = ''a@Local.Test''"
    by (rule exI [of _ sa''], rule exI [of _ mh'']) (intro conjI, (rule h1 h2)+)
  show ?thesis by (intro conjI) (rule a b c x f3 pa y w)+
qed

subsection \<open>The STARTTLS downgrade\<close>

text \<open>
  C7. The connection is made by the package smtp-connection, which raises \<open>ETLS\<close> from
  its STARTTLS step only; the hypothesis says so: a connection opened with \<open>ignoreTLS\<close>
  does not fail with \<open>ETLS\<close>. Then \<open>getConnection\<close> calls back, and in every run: a
  connection that fails with \<open>ETLS\<close> is followed by its retry, opened under the same
  \<open>mxTry\<close> and \<open>ipTry\<close> to the same exchange and address with \<open>ignoreTLS\<close> set and
  \<open>requireTLS\<close> cleared; the zone returned has \<open>disableStarttls\<close> set; and under any
  values of \<open>mxTry\<close> and \<open>ipTry\<close> at most one connection is a retry. \<open>getConnection\<close>
  only reads the delivery, and a deferral in the same iteration of \<open>sendNext\<close> is still
  computed from the count of earlier deferrals that the delivery came with.
\<close>

theorem starttls_retry:
  assumes H: "\<forall>opts. ignoreTLS opts \<longrightarrow> \<not> tlsFailure e opts"
  shows "(\<exists>n r. getConnection n e z d = Some r)
     \<and> (\<forall>n r. getConnection n e z d = Some r \<longrightarrow>
           (\<forall>k < length (gc_attempts r). tlsFailure e (a_options (gc_attempts r ! k)) \<longrightarrow>
                Suc k < length (gc_attempts r)
                \<and> retryOf (gc_attempts r ! k) (gc_attempts r ! Suc k)
                \<and> disableStarttls (gc_zone r))
         \<and> (\<forall>m i. length (filter (\<lambda>a. a_retry a \<and> a_mx a = m \<and> a_ip a = i)
                              (gc_attempts r)) \<le> 1))
     \<and> (\<forall>n s z' s' dl i q l t.
           sendNext n e z s = Some (z', s') \<longrightarrow> queue_get e = GetJob dl \<longrightarrow>
           DEFER i q l t \<in> set (new_commands s s') \<longrightarrow>
           t = min (5 ^ (deferredCount dl + 1)) 1024 * 60 * 1000)"
proof (intro conjI allI impI)
  from getConnection_terminates [OF H, of z d]
  show "\<exists>n r. getConnection n e z d = Some r" by auto
next
  fix n r k
  assume g: "getConnection n e z d = Some r" and k: "k < length (gc_attempts r)"
    and f: "tlsFailure e (a_options (gc_attempts r ! k))"
  from settled_retry [OF getConnection_settled [OF g] k f]
  show "Suc k < length (gc_attempts r)"
    "retryOf (gc_attempts r ! k) (gc_attempts r ! Suc k)" "disableStarttls (gc_zone r)"
    by simp_all
next
  fix n r m i
  assume g: "getConnection n e z d = Some r"
  from getConnection_settled [OF g] have "traceOk e (gc_zone r) (gc_attempts r)"
    by (simp add: settled_def)
  from one_retry_per_slot [OF H this]
  show "length (filter (\<lambda>a. a_retry a \<and> a_mx a = m \<and> a_ip a = i) (gc_attempts r)) \<le> 1" .
next
  fix n s z' s' dl i q l t
  assume "sendNext n e z s = Some (z', s')" "queue_get e = GetJob dl"
    "DEFER i q l t \<in> set (new_commands s s')"
  then show "t = min (5 ^ (deferredCount dl + 1)) 1024 * 60 * 1000"
    by (rule sendNext_defer)
qed

theorem starttls_retry_witness:
  "\<not> disableStarttls ex_zone
   \<and> (\<exists>r. getConnection 5 (ex_env GetEmpty (SendOk [])) ex_zone (ex_delivery []) = Some r
          \<and> map a_retry (gc_attempts r) = [False, True]
          \<and> tlsFailure (ex_env GetEmpty (SendOk [])) (a_options (gc_attempts r ! 0))
          \<and> retryOf (gc_attempts r ! 0) (gc_attempts r ! Suc 0)
          \<and> disableStarttls (gc_zone r)
          \<and> gc_outcome r = Inr ex_options
          \<and> length (filter (\<lambda>a. a_retry a \<and> a_mx a = 1 \<and> a_ip a = 0) (gc_attempts r)) \<le> 1)"
proof -
  let ?e = "ex_env GetEmpty (SendOk [])"
  let ?r = "\<lparr>gc_outcome = Inr ex_options, gc_zone = ex_zone\<lparr>disableStarttls := True\<rparr>,
           gc_attempts =
             [\<lparr>a_mx = 1, a_ip = 0, a_retry = False,
                a_options = ex_options\<lparr>requireTLS := True, ignoreTLS := False\<rparr>\<rparr>,
              \<lparr>a_mx = 1, a_ip = 0, a_retry = True, a_options = ex_options\<rparr>]\<rparr>"
  have H: "\<forall>opts. ignoreTLS opts \<longrightarrow> \<not> tlsFailure ?e opts"
    by (simp add: tlsFailure_def ex_env_def)
  have g: "getConnection 5 ?e ex_zone (ex_delivery []) = Some ?r" by (rule ex_getConnection)
  note T = starttls_retry [OF H, of ex_zone "ex_delivery []", THEN conjunct2, THEN conjunct1,
      rule_format, OF g]
  have z: "\<not> disableStarttls ex_zone" by (simp add: ex_zone_def)
  have k: "0 < length (gc_attempts ?r)" by simp
  have f: "tlsFailure ?e (a_options (gc_attempts ?r ! 0))"
    by (simp add: tlsFailure_def ex_env_def ex_options_def ex_error_def)
  from T [THEN conjunct1, rule_format, OF k f]
  have a: "retryOf (gc_attempts ?r ! 0) (gc_attempts ?r ! Suc 0)"
    and b: "disableStarttls (gc_zone ?r)"
    by blast+
  from T [THEN conjunct2, rule_format, of 1 0]
  have c: "length (filter (\<lambda>a. a_retry a \<and> a_mx a = 1 \<and> a_ip a = 0) (gc_attempts ?r)) \<le> 1" .
  have m: "map a_retry (gc_attempts ?r) = [False, True]" by simp
  have o: "gc_outcome ?r = Inr ex_options" by simp
  have x: "\<exists>r. getConnection 5 ?e ex_zone (ex_delivery []) = Some r
          \<and> map a_retry (gc_attempts r) = [False, True]
          \<and> tlsFailure ?e (a_options (gc_attempts r ! 0))
          \<and> retryOf (gc_attempts r ! 0) (gc_attempts r ! Suc 0)
          \<and> disableStarttls (gc_zone r)
          \<and> gc_outcome r = Inr ex_options
          \<and> length (filter (\<lambda>a. a_retry a \<and> a_mx a = 1 \<and> a_ip a = 0) (gc_attempts r)) \<le> 1"
    by (rule exI [of _ ?r]) (intro conjI, (rule g m f a b o c)+)
  show ?thesis by (intro conjI) (rule z x)+
qed

end
